theory Spec2Isabelle
  imports Main "HOL-Library.Sublist"
begin

section \<open>Python values and the operations the adapter applies to them\<close>

text \<open>
  Every value the adapter handles comes out of \<^verbatim>\<open>response.json()\<close> or is built from
  literals, so it is \<^verbatim>\<open>None\<close>, a \<^verbatim>\<open>bool\<close>, an \<^verbatim>\<open>int\<close>, a \<^verbatim>\<open>str\<close>, a \<^verbatim>\<open>list\<close> or a
  \<^verbatim>\<open>dict\<close> with string keys. A dict is the list of its items; a key is looked up with
  \<open>map_of\<close>. Numbers with a fraction or an exponent decode to Python floats and are not
  part of this model. Text uses HOL's 8-bit characters, read as the code points
  U+0000 to U+00FF.
\<close>

datatype pyval =
    PyNone
  | PyBool bool
  | PyInt int
  | PyStr string
  | PyList "pyval list"
  | PyDict "(string \<times> pyval) list"

text \<open>
  An exception the code can meet. \<open>RequestException\<close> stands for whatever the HTTP
  session or the JSON decoder raises and carries its text.
\<close>

datatype pyexc =
    AttributeError
  | TypeError
  | KeyError
  | IndexError
  | RequestException string

definition bind_exc :: "pyexc + 'a \<Rightarrow> ('a \<Rightarrow> pyexc + 'b) \<Rightarrow> pyexc + 'b" where
  "bind_exc r f = (case r of Inl e \<Rightarrow> Inl e | Inr v \<Rightarrow> f v)"

text \<open>Truth value of an object, as \<^verbatim>\<open>if x:\<close>, \<^verbatim>\<open>not x\<close>, \<^verbatim>\<open>and\<close> and \<^verbatim>\<open>or\<close> test it.\<close>

fun truthy :: "pyval \<Rightarrow> bool" where
  "truthy PyNone = False"
| "truthy (PyBool b) = b"
| "truthy (PyInt i) = (i \<noteq> 0)"
| "truthy (PyStr s) = (s \<noteq> [])"
| "truthy (PyList xs) = (xs \<noteq> [])"
| "truthy (PyDict kvs) = (kvs \<noteq> [])"

text \<open>\<^verbatim>\<open>x == k\<close> for an integer literal \<open>k\<close>: a \<^verbatim>\<open>bool\<close> is the integer 0 or 1.\<close>

fun py_eq_int :: "pyval \<Rightarrow> int \<Rightarrow> bool" where
  "py_eq_int (PyInt i) k = (i = k)"
| "py_eq_int (PyBool b) k = ((if b then 1 else 0) = k)"
| "py_eq_int _ k = False"

text \<open>\<^verbatim>\<open>x == "..."\<close> for a string literal.\<close>

fun py_eq_str :: "pyval \<Rightarrow> string \<Rightarrow> bool" where
  "py_eq_str (PyStr s) t = (s = t)"
| "py_eq_str _ t = False"

text \<open>\<^verbatim>\<open>x.get(key, default)\<close>: only a dict has the method.\<close>

fun py_get :: "pyval \<Rightarrow> string \<Rightarrow> pyval \<Rightarrow> pyexc + pyval" where
  "py_get (PyDict kvs) k d = Inr (case map_of kvs k of Some v \<Rightarrow> v | None \<Rightarrow> d)"
| "py_get _ k d = Inl AttributeError"

text \<open>\<^verbatim>\<open>xs[i]\<close> on a sequence; an index below zero is taken from the right end.\<close>

definition py_index :: "'a list \<Rightarrow> int \<Rightarrow> pyexc + 'a" where
  "py_index xs i =
     (if 0 \<le> i \<and> i < int (length xs) then Inr (xs ! nat i)
      else if i < 0 \<and> - int (length xs) \<le> i then Inr (xs ! nat (int (length xs) + i))
      else Inl IndexError)"

text \<open>\<^verbatim>\<open>x[k]\<close>. A list or dict is not hashable and cannot be a dict key.\<close>

fun py_getitem :: "pyval \<Rightarrow> pyval \<Rightarrow> pyexc + pyval" where
  "py_getitem (PyDict kvs) (PyStr k) = (case map_of kvs k of Some v \<Rightarrow> Inr v | None \<Rightarrow> Inl KeyError)"
| "py_getitem (PyDict kvs) (PyList xs) = Inl TypeError"
| "py_getitem (PyDict kvs) (PyDict ys) = Inl TypeError"
| "py_getitem (PyDict kvs) _ = Inl KeyError"
| "py_getitem (PyList xs) (PyInt i) = py_index xs i"
| "py_getitem (PyList xs) (PyBool b) = py_index xs (if b then 1 else 0)"
| "py_getitem (PyList xs) _ = Inl TypeError"
| "py_getitem (PyStr s) (PyInt i) = map_sum id (\<lambda>c. PyStr [c]) (py_index s i)"
| "py_getitem (PyStr s) (PyBool b) = map_sum id (\<lambda>c. PyStr [c]) (py_index s (if b then 1 else 0))"
| "py_getitem (PyStr s) _ = Inl TypeError"
| "py_getitem _ _ = Inl TypeError"

text \<open>\<^verbatim>\<open>for x in v\<close>: a list gives its elements, a dict its keys, a string its characters.\<close>

fun py_iter :: "pyval \<Rightarrow> pyexc + pyval list" where
  "py_iter (PyList xs) = Inr xs"
| "py_iter (PyDict kvs) = Inr (map (\<lambda>kv. PyStr (fst kv)) kvs)"
| "py_iter (PyStr s) = Inr (map (\<lambda>c. PyStr [c]) s)"
| "py_iter _ = Inl TypeError"

text \<open>\<^verbatim>\<open>x[:10]\<close>, which the code evaluates for a log line: only sequences can be sliced.\<close>

fun py_slice10 :: "pyval \<Rightarrow> pyexc + pyval" where
  "py_slice10 (PyStr s) = Inr (PyStr (take 10 s))"
| "py_slice10 (PyList xs) = Inr (PyList (take 10 xs))"
| "py_slice10 (PyDict kvs) = Inl KeyError"
| "py_slice10 _ = Inl TypeError"

text \<open>
  \<^verbatim>\<open>a == b\<close> on decoded values. Dicts are equal when they have the same keys with equal
  values, whatever the order of their items.
\<close>

fun py_eq :: "pyval \<Rightarrow> pyval \<Rightarrow> bool" where
  "py_eq PyNone b = (b = PyNone)"
| "py_eq (PyBool x) b = py_eq_int b (if x then 1 else 0)"
| "py_eq (PyInt i) b = py_eq_int b i"
| "py_eq (PyStr s) b = py_eq_str b s"
| "py_eq (PyList xs) b = (case b of PyList ys \<Rightarrow> list_all2 py_eq xs ys | _ \<Rightarrow> False)"
| "py_eq (PyDict kvs) b =
     (case b of
        PyDict ws \<Rightarrow>
          set (map fst kvs) = set (map fst ws) \<and>
          list_all (\<lambda>kv. case map_of ws (fst kv) of None \<Rightarrow> False | Some w \<Rightarrow> py_eq (snd kv) w) kvs
      | _ \<Rightarrow> False)"

text \<open>
  \<^verbatim>\<open>x in c\<close>: key lookup in a dict (the keys are strings, so no other hashable value is
  found; a list or dict cannot be hashed), equality with some element of a list,
  substring test in a string.
\<close>

fun py_contains :: "pyval \<Rightarrow> pyval \<Rightarrow> pyexc + bool" where
  "py_contains (PyDict kvs) (PyStr k) = Inr (k \<in> set (map fst kvs))"
| "py_contains (PyDict kvs) (PyList xs) = Inl TypeError"
| "py_contains (PyDict kvs) (PyDict ys) = Inl TypeError"
| "py_contains (PyDict kvs) _ = Inr False"
| "py_contains (PyList xs) x = Inr (list_ex (\<lambda>y. py_eq y x) xs)"
| "py_contains (PyStr s) (PyStr t) = Inr (sublist t s)"
| "py_contains (PyStr s) _ = Inl TypeError"
| "py_contains _ _ = Inl TypeError"

subsection \<open>Text\<close>

text \<open>\<^verbatim>\<open>str.lower()\<close> on the code points below 256: A to Z and the Latin-1 capitals.\<close>

definition lower_char :: "char \<Rightarrow> char" where
  "lower_char c =
     (let n = of_char c :: nat
      in if (65 \<le> n \<and> n \<le> 90) \<or> (192 \<le> n \<and> n \<le> 222 \<and> n \<noteq> 215) then char_of (n + 32) else c)"

definition lower :: "string \<Rightarrow> string" where
  "lower s = map lower_char s"

text \<open>\<^verbatim>\<open>str.encode()\<close>: UTF-8, two bytes for a code point from 128 to 255.\<close>

definition encode_char :: "char \<Rightarrow> string" where
  "encode_char c =
     (let n = of_char c :: nat
      in if n < 128 then [c] else [char_of (192 + n div 64), char_of (128 + n mod 64)])"

definition encode :: "string \<Rightarrow> string" where
  "encode s = concat (map encode_char s)"

definition digit_char :: "nat \<Rightarrow> char" where
  "digit_char d = char_of (48 + d)"

fun show_nat :: "nat \<Rightarrow> string" where
  "show_nat n = (if n < 10 then [digit_char n] else show_nat (n div 10) @ [digit_char (n mod 10)])"

declare show_nat.simps [simp del]

text \<open>\<^verbatim>\<open>str(i)\<close> for an \<^verbatim>\<open>int\<close>.\<close>

definition show_int :: "int \<Rightarrow> string" where
  "show_int i = (if i < 0 then CHR ''-'' # show_nat (nat (- i)) else show_nat (nat i))"

text \<open>\<^verbatim>\<open>sep.join(parts)\<close>.\<close>

fun join :: "string \<Rightarrow> string list \<Rightarrow> string" where
  "join sep [] = []"
| "join sep [x] = x"
| "join sep (x # y # ys) = x @ sep @ join sep (y # ys)"

subsection \<open>\<^verbatim>\<open>json.dumps\<close> with \<^verbatim>\<open>separators=(',', ':')\<close>\<close>

definition hex_char :: "nat \<Rightarrow> char" where
  "hex_char d = (if d < 10 then char_of (48 + d) else char_of (87 + d))"

text \<open>
  The encoder's default \<^verbatim>\<open>ensure_ascii\<close>: the quote and the backslash are escaped,
  and so is every character outside the printable ASCII range.
\<close>

definition json_escape_char :: "char \<Rightarrow> string" where
  "json_escape_char c =
     (let n = of_char c :: nat
      in if n = 34 then [CHR 0x5C, CHR 0x22]
         else if n = 92 then [CHR 0x5C, CHR 0x5C]
         else if n = 10 then [CHR 0x5C, CHR ''n'']
         else if n = 13 then [CHR 0x5C, CHR ''r'']
         else if n = 9 then [CHR 0x5C, CHR ''t'']
         else if n = 8 then [CHR 0x5C, CHR ''b'']
         else if n = 12 then [CHR 0x5C, CHR ''f'']
         else if 32 \<le> n \<and> n \<le> 126 then [c]
         else [CHR 0x5C, CHR ''u'', CHR ''0'', CHR ''0'', hex_char (n div 16), hex_char (n mod 16)])"

definition json_string :: "string \<Rightarrow> string" where
  "json_string s = [CHR 0x22] @ concat (map json_escape_char s) @ [CHR 0x22]"

fun json_dumps :: "pyval \<Rightarrow> string" where
  "json_dumps PyNone = ''null''"
| "json_dumps (PyBool b) = (if b then ''true'' else ''false'')"
| "json_dumps (PyInt i) = show_int i"
| "json_dumps (PyStr s) = json_string s"
| "json_dumps (PyList xs) = ''['' @ join '','' (map json_dumps xs) @ '']''"
| "json_dumps (PyDict kvs) =
     ''{'' @ join '','' (map (\<lambda>kv. json_string (fst kv) @ '':'' @ json_dumps (snd kv)) kvs) @ ''}''"

section \<open>The adapter and its environment\<close>

text \<open>One call of \<^verbatim>\<open>session.get\<close> or \<^verbatim>\<open>session.post\<close>.\<close>

record request =
  verb :: string
  url :: string
  headers :: "(string \<times> pyval) list"
  payload :: "pyval option"

text \<open>
  What the adapter does not compute itself: the upstream service (\<open>http\<close> is the
  session call followed by \<^verbatim>\<open>response.json()\<close>, and raises when either does), the
  wall clock (\<open>clock w n\<close> is \<^verbatim>\<open>int(time.time())\<close> at the \<open>n\<close>-th reading), the two
  digests of \<^verbatim>\<open>hmac\<close> and \<^verbatim>\<open>hashlib\<close> as hexadecimal text, and Python's \<^verbatim>\<open>str\<close> of an
  exception and of a list or dict.
\<close>

record env =
  http :: "request \<Rightarrow> pyexc + pyval"
  clock :: "nat \<Rightarrow> int"
  hmac_sha256_hexdigest :: "string \<Rightarrow> string \<Rightarrow> string"
  md5_hexdigest :: "string \<Rightarrow> string"
  exc_str :: "pyexc \<Rightarrow> string"
  container_str :: "pyval \<Rightarrow> string"

text \<open>
  The fields of \<^verbatim>\<open>EndfieldAdapter\<close>. \<open>session\<close> is the list of the requests issued
  through \<^verbatim>\<open>self.session\<close>, oldest first; \<open>clock_reads\<close> counts the calls of
  \<^verbatim>\<open>time.time()\<close>.
\<close>

record adapter =
  account_token :: string
  account_name :: string
  cred :: pyval
  sign_token :: pyval
  game_role :: pyval
  session :: "request list"
  clock_reads :: nat

definition BASE_URL :: string where
  "BASE_URL = ''https://zonai.skport.com/web/v1''"

definition API_BASE_URL :: string where
  "API_BASE_URL = ''https://zonai.skport.com/api/v1''"

definition OAUTH_URL :: string where
  "OAUTH_URL = ''https://as.gryphline.com''"

definition APP_CODE :: string where
  "APP_CODE = ''6eb76d4e13aa36e6''"

definition PLATFORM :: string where
  "PLATFORM = ''3''"

definition VNAME :: string where
  "VNAME = ''1.0.0''"

definition ENDFIELD_GAME_ID :: string where
  "ENDFIELD_GAME_ID = ''3''"

text \<open>\<^verbatim>\<open>__init__\<close>: a short token that does not look encoded is taken as the cred.\<close>

definition EndfieldAdapter :: "string \<Rightarrow> string \<Rightarrow> adapter" where
  "EndfieldAdapter token name =
     \<lparr>account_token = token, account_name = name,
      cred = (if \<not> prefix ''eyJ'' token \<and> length token < 100 then PyStr token else PyNone),
      sign_token = PyNone, game_role = PyNone, session = [], clock_reads = 0\<rparr>"

text \<open>\<^verbatim>\<open>str(x)\<close> as an f-string applies it.\<close>

definition py_str :: "env \<Rightarrow> pyval \<Rightarrow> string" where
  "py_str w v =
     (case v of
        PyNone \<Rightarrow> ''None''
      | PyBool b \<Rightarrow> (if b then ''True'' else ''False'')
      | PyInt i \<Rightarrow> show_int i
      | PyStr s \<Rightarrow> s
      | _ \<Rightarrow> container_str w v)"

text \<open>\<^verbatim>\<open>str(int(time.time()))\<close>.\<close>

definition timestamp_now :: "env \<Rightarrow> adapter \<Rightarrow> string \<times> adapter" where
  "timestamp_now w s = (show_int (clock w (clock_reads s)), s\<lparr>clock_reads := Suc (clock_reads s)\<rparr>)"

definition issue :: "request \<Rightarrow> adapter \<Rightarrow> adapter" where
  "issue req s = s\<lparr>session := session s @ [req]\<rparr>"

text \<open>\<^verbatim>\<open>except Exception: return None\<close>.\<close>

definition except_None :: "pyexc + pyval \<Rightarrow> pyval" where
  "except_None r = (case r of Inl e \<Rightarrow> PyNone | Inr v \<Rightarrow> v)"

text \<open>The test \<^verbatim>\<open>data.get(f) == 0 and data.get("data", {}).get(k)\<close> of the exchange steps.\<close>

definition status_ok :: "pyval \<Rightarrow> string \<Rightarrow> string \<Rightarrow> pyexc + bool" where
  "status_ok data f k =
     bind_exc (py_get data f PyNone) (\<lambda>st.
       if py_eq_int st 0
       then bind_exc (py_get data ''data'' (PyDict [])) (\<lambda>d.
            bind_exc (py_get d k PyNone) (\<lambda>v. Inr (truthy v)))
       else Inr False)"

text \<open>\<^verbatim>\<open>data["data"][k]\<close>.\<close>

definition nested :: "pyval \<Rightarrow> string \<Rightarrow> pyexc + pyval" where
  "nested data k = bind_exc (py_getitem data (PyStr ''data'')) (\<lambda>d. py_getitem d (PyStr k))"

subsection \<open>Signature\<close>

definition compute_sign :: "env \<Rightarrow> adapter \<Rightarrow> string \<Rightarrow> string \<Rightarrow> string \<Rightarrow> pyexc + string" where
  "compute_sign w s path body timestamp =
     (let header_obj = PyDict [(''platform'', PyStr PLATFORM), (''timestamp'', PyStr timestamp),
                               (''dId'', PyStr []), (''vName'', PyStr VNAME)];
          headers_json = json_dumps header_obj;
          sign_string = path @ body @ timestamp @ headers_json
      in case sign_token s of
           PyStr key \<Rightarrow>
             (let hmac_hash = hmac_sha256_hexdigest w (encode key) (encode sign_string)
              in Inr (md5_hexdigest w (encode hmac_hash)))
         | _ \<Rightarrow> Inl AttributeError)"

subsection \<open>Credential exchange\<close>

definition oauth_request :: "adapter \<Rightarrow> request" where
  "oauth_request s =
     \<lparr>verb = ''POST'', url = OAUTH_URL @ ''/user/oauth2/v2/grant'',
      headers = [(''Content-Type'', PyStr ''application/json''), (''Accept'', PyStr ''application/json'')],
      payload = Some (PyDict [(''token'', PyStr (account_token s)), (''appCode'', PyStr APP_CODE),
                              (''type'', PyInt 0)])\<rparr>"

definition get_oauth_code :: "env \<Rightarrow> adapter \<Rightarrow> pyval \<times> adapter" where
  "get_oauth_code w s =
     (let req = oauth_request s
      in (except_None
            (bind_exc (http w req) (\<lambda>data.
             bind_exc (status_ok data ''status'' ''code'') (\<lambda>ok.
               if ok then nested data ''code'' else Inr PyNone))),
          issue req s))"

definition cred_request :: "pyval \<Rightarrow> request" where
  "cred_request oauth_code =
     \<lparr>verb = ''POST'', url = BASE_URL @ ''/user/auth/generate_cred_by_code'',
      headers = [(''Content-Type'', PyStr ''application/json''), (''Accept'', PyStr ''application/json''),
                 (''platform'', PyStr PLATFORM), (''Referer'', PyStr ''https://www.skport.com/''),
                 (''Origin'', PyStr ''https://www.skport.com'')],
      payload = Some (PyDict [(''kind'', PyInt 1), (''code'', oauth_code)])\<rparr>"

definition get_cred :: "env \<Rightarrow> adapter \<Rightarrow> pyval \<Rightarrow> pyval \<times> adapter" where
  "get_cred w s oauth_code =
     (let req = cred_request oauth_code
      in (except_None
            (bind_exc (http w req) (\<lambda>data.
             bind_exc (status_ok data ''code'' ''cred'') (\<lambda>ok.
               if ok
               then bind_exc (nested data ''cred'') (\<lambda>c.
                    bind_exc (py_slice10 c) (\<lambda>shown. Inr c))
               else Inr PyNone))),
          issue req s))"

definition refresh_request :: "adapter \<Rightarrow> string \<Rightarrow> request" where
  "refresh_request s timestamp =
     \<lparr>verb = ''GET'', url = BASE_URL @ ''/auth/refresh'',
      headers = [(''cred'', cred s), (''platform'', PyStr PLATFORM), (''vname'', PyStr VNAME),
                 (''timestamp'', PyStr timestamp), (''sk-language'', PyStr ''en'')],
      payload = None\<rparr>"

definition get_sign_token :: "env \<Rightarrow> adapter \<Rightarrow> pyval \<times> adapter" where
  "get_sign_token w s =
     (let (timestamp, s1) = timestamp_now w s;
          req = refresh_request s1 timestamp
      in (except_None
            (bind_exc (http w req) (\<lambda>data.
             bind_exc (status_ok data ''code'' ''token'') (\<lambda>ok.
               if ok
               then bind_exc (nested data ''token'') (\<lambda>t.
                    bind_exc (py_slice10 t) (\<lambda>shown. Inr t))
               else Inr PyNone))),
          issue req s1))"

text \<open>The loop over the bound applications of \<^verbatim>\<open>_get_player_binding\<close>.\<close>

fun find_role :: "env \<Rightarrow> pyval list \<Rightarrow> pyexc + pyval" where
  "find_role w [] = Inr PyNone"
| "find_role w (app # apps) =
     bind_exc (py_get app ''appCode'' PyNone) (\<lambda>code.
       if \<not> py_eq_str code ''endfield'' then find_role w apps
       else
         bind_exc (py_get app ''bindingList'' PyNone) (\<lambda>bl.
           if \<not> truthy bl then find_role w apps
           else
             bind_exc (py_getitem app (PyStr ''bindingList'')) (\<lambda>bs.
             bind_exc (py_getitem bs (PyInt 0)) (\<lambda>binding.
             bind_exc (py_get binding ''defaultRole'' PyNone) (\<lambda>default_role.
             bind_exc
               (if truthy default_role then Inr default_role
                else bind_exc (py_get binding ''roles'' PyNone) (\<lambda>rs.
                       if truthy rs
                       then bind_exc (py_get binding ''roles'' (PyList [PyDict []])) (\<lambda>roles.
                              py_getitem roles (PyInt 0))
                       else Inr PyNone))
               (\<lambda>role.
                 if truthy role
                 then bind_exc (py_get role ''roleId'' PyNone) (\<lambda>role_id.
                      bind_exc (py_get role ''serverId'' PyNone) (\<lambda>server_id.
                        Inr (PyStr (ENDFIELD_GAME_ID @ ''_'' @ py_str w role_id @ ''_'' @ py_str w server_id))))
                 else find_role w apps))))))"

definition signed_headers :: "adapter \<Rightarrow> string \<Rightarrow> string \<Rightarrow> (string \<times> pyval) list" where
  "signed_headers s timestamp signature =
     [(''cred'', cred s), (''platform'', PyStr PLATFORM), (''vname'', PyStr VNAME),
      (''timestamp'', PyStr timestamp), (''sk-language'', PyStr ''en''), (''sign'', PyStr signature)]"

definition binding_request :: "adapter \<Rightarrow> string \<Rightarrow> string \<Rightarrow> request" where
  "binding_request s timestamp signature =
     \<lparr>verb = ''GET'', url = API_BASE_URL @ ''/game/player/binding'',
      headers = signed_headers s timestamp signature, payload = None\<rparr>"

definition get_player_binding :: "env \<Rightarrow> adapter \<Rightarrow> pyval \<times> adapter" where
  "get_player_binding w s =
     (let (timestamp, s1) = timestamp_now w s
      in case compute_sign w s1 ''/api/v1/game/player/binding'' [] timestamp of
           Inl e \<Rightarrow> (PyNone, s1)
         | Inr signature \<Rightarrow>
             (let req = binding_request s1 timestamp signature
              in (except_None
                    (bind_exc (http w req) (\<lambda>data.
                     bind_exc (status_ok data ''code'' ''list'') (\<lambda>ok.
                       if ok
                       then bind_exc (nested data ''list'') (\<lambda>apps.
                            bind_exc (py_iter apps) (find_role w))
                       else Inr PyNone))),
                  issue req s1)))"

text \<open>Lines 282 to 294 of \<^verbatim>\<open>authenticate\<close>: the signing token, then the optional role.\<close>

definition finish_authentication :: "env \<Rightarrow> adapter \<Rightarrow> bool \<times> adapter" where
  "finish_authentication w s =
     (let (token, s1) = get_sign_token w s
      in if \<not> truthy token then (False, s1)
         else
           (let s2 = s1\<lparr>sign_token := token\<rparr>;
                (role, s3) = get_player_binding w s2
            in (True, s3\<lparr>game_role := role\<rparr>)))"

text \<open>
  \<^verbatim>\<open>authenticate\<close>. Each step catches its own exceptions, so the handler of
  \<^verbatim>\<open>authenticate\<close> itself is never entered.
\<close>

definition authenticate :: "env \<Rightarrow> adapter \<Rightarrow> bool \<times> adapter" where
  "authenticate w s =
     (if \<not> truthy (cred s)
      then
        (let (oauth_code, s1) = get_oauth_code w s
         in if \<not> truthy oauth_code then (False, s1)
            else
              (let (c, s2) = get_cred w s1 oauth_code
               in if \<not> truthy c then (False, s2)
                  else finish_authentication w (s2\<lparr>cred := c\<rparr>)))
      else finish_authentication w s)"

subsection \<open>Attendance client\<close>

text \<open>\<^verbatim>\<open>return {"code": -1, "message": str(e)}\<close>.\<close>

definition error_payload :: "env \<Rightarrow> pyexc \<Rightarrow> pyval" where
  "error_payload w e = PyDict [(''code'', PyInt (- 1)), (''message'', PyStr (exc_str w e))]"

definition role_header :: "adapter \<Rightarrow> (string \<times> pyval) list" where
  "role_header s = (if truthy (game_role s) then [(''sk-game-role'', game_role s)] else [])"

definition check_request :: "adapter \<Rightarrow> string \<Rightarrow> string \<Rightarrow> request" where
  "check_request s timestamp signature =
     \<lparr>verb = ''GET'', url = BASE_URL @ ''/game/endfield/attendance'',
      headers = signed_headers s timestamp signature @ role_header s, payload = None\<rparr>"

definition check_attendance :: "env \<Rightarrow> adapter \<Rightarrow> pyval \<times> adapter" where
  "check_attendance w s =
     (let (timestamp, s1) = timestamp_now w s
      in case compute_sign w s1 ''/web/v1/game/endfield/attendance'' [] timestamp of
           Inl e \<Rightarrow> (error_payload w e, s1)
         | Inr signature \<Rightarrow>
             (let req = check_request s1 timestamp signature
              in (case http w req of Inl e \<Rightarrow> error_payload w e | Inr data \<Rightarrow> data, issue req s1)))"

definition claim_request :: "adapter \<Rightarrow> string \<Rightarrow> string \<Rightarrow> request" where
  "claim_request s timestamp signature =
     \<lparr>verb = ''POST'', url = BASE_URL @ ''/game/endfield/attendance'',
      headers = signed_headers s timestamp signature @ [(''Content-Type'', PyStr ''application/json'')]
                @ role_header s,
      payload = None\<rparr>"

definition claim_attendance :: "env \<Rightarrow> adapter \<Rightarrow> pyval \<times> adapter" where
  "claim_attendance w s =
     (let (timestamp, s1) = timestamp_now w s
      in case compute_sign w s1 ''/web/v1/game/endfield/attendance'' [] timestamp of
           Inl e \<Rightarrow> (error_payload w e, s1)
         | Inr signature \<Rightarrow>
             (let req = claim_request s1 timestamp signature
              in (case http w req of Inl e \<Rightarrow> error_payload w e | Inr data \<Rightarrow> data, issue req s1)))"

subsection \<open>Check-in decision logic\<close>

text \<open>The dict every \<^verbatim>\<open>return\<close> of \<^verbatim>\<open>perform_checkin\<close> builds.\<close>

definition outcome :: "bool \<Rightarrow> pyval \<Rightarrow> bool \<Rightarrow> pyval \<Rightarrow> int \<Rightarrow> pyval" where
  "outcome success message already_signed reward total_sign_day =
     PyDict [(''success'', PyBool success), (''message'', message),
             (''already_signed'', PyBool already_signed), (''reward'', reward),
             (''total_sign_day'', PyInt total_sign_day)]"

text \<open>The reward dict built from a catalog entry.\<close>

definition reward_info :: "pyval \<Rightarrow> pyexc + pyval" where
  "reward_info resource =
     bind_exc (py_get resource ''name'' (PyStr ''Unknown'')) (\<lambda>name.
     bind_exc (py_get resource ''count'' (PyInt 0)) (\<lambda>count.
     bind_exc (py_get resource ''icon'' (PyStr [])) (\<lambda>icon.
       Inr (PyDict [(''name'', name), (''count'', count), (''icon'', icon)]))))"

text \<open>\<^verbatim>\<open>len([c for c in calendar if c.get("done", False)])\<close>.\<close>

fun count_done :: "pyval list \<Rightarrow> pyexc + nat" where
  "count_done [] = Inr 0"
| "count_done (c # cs) =
     bind_exc (py_get c ''done'' (PyBool False)) (\<lambda>d.
     bind_exc (count_done cs) (\<lambda>n. Inr (if truthy d then Suc n else n)))"

text \<open>
  The loop over the calendar of the already-signed branch; the second argument is
  \<^verbatim>\<open>last_reward\<close> so far.
\<close>

fun last_reward :: "pyval \<Rightarrow> pyval \<Rightarrow> pyval list \<Rightarrow> pyexc + pyval" where
  "last_reward resource_map acc [] = Inr acc"
| "last_reward resource_map acc (rec # rest) =
     bind_exc (py_get rec ''done'' PyNone) (\<lambda>d.
       if truthy d
       then
         bind_exc (py_get rec ''awardId'' PyNone) (\<lambda>award_id.
         bind_exc (if truthy award_id then py_contains resource_map award_id else Inr False) (\<lambda>found.
           if found
           then bind_exc (py_getitem resource_map award_id) (\<lambda>resource.
                bind_exc (reward_info resource) (\<lambda>r. last_reward resource_map r rest))
           else last_reward resource_map acc rest))
       else last_reward resource_map acc rest)"

text \<open>The loop over \<^verbatim>\<open>award_ids\<close> of the claimed branch; the result is \<^verbatim>\<open>rewards\<close>.\<close>

fun collect_rewards :: "pyval \<Rightarrow> pyval list \<Rightarrow> pyexc + pyval list" where
  "collect_rewards claim_resource_map [] = Inr []"
| "collect_rewards claim_resource_map (award # rest) =
     bind_exc (case award of PyDict kvs \<Rightarrow> py_get award ''id'' PyNone | _ \<Rightarrow> Inr award) (\<lambda>award_id.
     bind_exc (if truthy award_id then py_contains claim_resource_map award_id else Inr False) (\<lambda>found.
       if found
       then bind_exc (py_getitem claim_resource_map award_id) (\<lambda>resource.
            bind_exc (reward_info resource) (\<lambda>r.
            bind_exc (collect_rewards claim_resource_map rest) (\<lambda>rs. Inr (r # rs))))
       else collect_rewards claim_resource_map rest))"

text \<open>\<^verbatim>\<open>[f"{r['name']} x{r['count']}" for r in rewards]\<close>.\<close>

fun reward_parts :: "env \<Rightarrow> pyval list \<Rightarrow> pyexc + string list" where
  "reward_parts w [] = Inr []"
| "reward_parts w (r # rs) =
     bind_exc (py_getitem r (PyStr ''name'')) (\<lambda>name.
     bind_exc (py_getitem r (PyStr ''count'')) (\<lambda>count.
     bind_exc (reward_parts w rs) (\<lambda>ps. Inr ((py_str w name @ '' x'' @ py_str w count) # ps))))"

text \<open>
  Lines 407 to 443 of \<^verbatim>\<open>perform_checkin\<close>: either the function returns here, or it goes
  on to the claim with \<^verbatim>\<open>total_signed\<close>.
\<close>

datatype checked = Returned pyval | Unclaimed nat

definition interpret_check :: "pyval \<Rightarrow> pyexc + checked" where
  "interpret_check check_data =
     bind_exc (py_get check_data ''code'' PyNone) (\<lambda>code.
       if \<not> py_eq_int code 0
       then bind_exc (py_get check_data ''message'' (PyStr ''Failed to check attendance'')) (\<lambda>m.
              Inr (Returned (outcome False m False PyNone 0)))
       else
         bind_exc (py_get check_data ''data'' (PyDict [])) (\<lambda>d1.
         bind_exc (py_get d1 ''hasToday'' (PyBool False)) (\<lambda>has_today.
         bind_exc (py_get check_data ''data'' (PyDict [])) (\<lambda>d2.
         bind_exc (py_get d2 ''calendar'' (PyList [])) (\<lambda>calendar.
         bind_exc (py_get check_data ''data'' (PyDict [])) (\<lambda>d3.
         bind_exc (py_get d3 ''resourceInfoMap'' (PyDict [])) (\<lambda>resource_map.
         bind_exc (py_iter calendar) (\<lambda>entries.
         bind_exc (count_done entries) (\<lambda>total_signed.
           if truthy has_today
           then bind_exc (py_iter calendar) (\<lambda>records.
                bind_exc (last_reward resource_map PyNone records) (\<lambda>r.
                  Inr (Returned (outcome True (PyStr ''Already signed in today'') True r
                                   (int total_signed)))))
           else Inr (Unclaimed total_signed))))))))))"

text \<open>Lines 449 to 511 of \<^verbatim>\<open>perform_checkin\<close>: the branches on the claim response.\<close>

definition interpret_claim :: "env \<Rightarrow> nat \<Rightarrow> pyval \<Rightarrow> pyexc + pyval" where
  "interpret_claim w total_signed claim_data =
     bind_exc (py_get claim_data ''code'' PyNone) (\<lambda>code.
     bind_exc (py_get claim_data ''message'' (PyStr [])) (\<lambda>msg.
       if py_eq_int code 0
       then
         bind_exc (py_get claim_data ''data'' (PyDict [])) (\<lambda>d1.
         bind_exc (py_get d1 ''awardIds'' (PyList [])) (\<lambda>award_ids.
         bind_exc (py_get claim_data ''data'' (PyDict [])) (\<lambda>d2.
         bind_exc (py_get d2 ''resourceInfoMap'' (PyDict [])) (\<lambda>claim_resource_map.
         bind_exc (if truthy award_ids \<and> truthy claim_resource_map
                   then bind_exc (py_iter award_ids) (collect_rewards claim_resource_map)
                   else Inr []) (\<lambda>rewards.
         bind_exc (case rewards of [] \<Rightarrow> Inr PyNone | r # rs \<Rightarrow> Inr r) (\<lambda>primary_reward.
         bind_exc (if rewards \<noteq> [] then map_sum id (join '', '') (reward_parts w rewards)
                   else Inr ''Unknown'') (\<lambda>reward_text.
           Inr (outcome True (PyStr (''Signed in successfully! Rewards: '' @ reward_text)) False
                  primary_reward (int total_signed + 1)))))))))
       else
         bind_exc (if py_eq_int code 1001 \<or> py_eq_int code 10001 then Inr True
                   else (case msg of PyStr m \<Rightarrow> Inr (sublist ''already'' (lower m))
                                   | _ \<Rightarrow> Inl AttributeError)) (\<lambda>already.
           if already
           then Inr (outcome True (PyStr ''Already signed in today'') True PyNone (int total_signed))
           else if py_eq_int code 10002
           then Inr (outcome False (PyStr ''Account token expired. Please update your token.'') False
                       PyNone 0)
           else Inr (outcome False (PyStr (''API Error (code '' @ py_str w code @ ''): '' @ py_str w msg))
                       False PyNone (int total_signed)))))"

text \<open>The handler of \<^verbatim>\<open>perform_checkin\<close> and of \<^verbatim>\<open>Game.sign\<close>.\<close>

definition exception_outcome :: "env \<Rightarrow> pyexc \<Rightarrow> pyval" where
  "exception_outcome w e = outcome False (PyStr (exc_str w e)) False PyNone 0"

definition perform_checkin :: "env \<Rightarrow> adapter \<Rightarrow> pyval \<times> adapter" where
  "perform_checkin w s =
     (let (authenticated, s1) = authenticate w s
      in if \<not> authenticated then (outcome False (PyStr ''Authentication failed'') False PyNone 0, s1)
         else
           (let (check_data, s2) = check_attendance w s1
            in case interpret_check check_data of
                 Inl e \<Rightarrow> (exception_outcome w e, s2)
               | Inr (Returned result) \<Rightarrow> (result, s2)
               | Inr (Unclaimed total_signed) \<Rightarrow>
                   (let (claim_data, s3) = claim_attendance w s2
                    in case interpret_claim w total_signed claim_data of
                         Inl e \<Rightarrow> (exception_outcome w e, s3)
                       | Inr result \<Rightarrow> (result, s3))))"

subsection \<open>Account processor\<close>

text \<open>
  \<^verbatim>\<open>Game.sign\<close> of \<^verbatim>\<open>games/game.py\<close>. The token comes from stored account data; the
  constructor calls \<^verbatim>\<open>startswith\<close> on it, which only a string has. The result is the
  dict handed to the caller.
\<close>

definition Game_sign :: "env \<Rightarrow> pyval \<Rightarrow> pyval" where
  "Game_sign w token_arg =
     (case (case token_arg of
              PyStr token \<Rightarrow>
                (let result = fst (perform_checkin w (EndfieldAdapter token ''Unknown''))
                 in bind_exc (py_getitem result (PyStr ''success'')) (\<lambda>success.
                    bind_exc (py_getitem result (PyStr ''message'')) (\<lambda>message.
                    bind_exc (py_get result ''already_signed'' (PyBool False)) (\<lambda>already_signed.
                    bind_exc (py_get result ''reward'' PyNone) (\<lambda>reward.
                    bind_exc (py_get result ''total_sign_day'' (PyInt 0)) (\<lambda>total_sign_day.
                      Inr (PyDict [(''success'', success), (''message'', message),
                                   (''already_signed'', already_signed), (''reward'', reward),
                                   (''total_sign_day'', total_sign_day)])))))))
            | _ \<Rightarrow> Inl AttributeError) of
        Inl e \<Rightarrow> exception_outcome w e
      | Inr result \<Rightarrow> result)"

section \<open>Vocabulary of the specification\<close>

text \<open>
  The words the claims use, as functions of the decoded payloads, so that the theorems
  can be stated the way the claims are.
\<close>

definition is_dict :: "pyval \<Rightarrow> bool" where
  "is_dict v = (case v of PyDict kvs \<Rightarrow> True | _ \<Rightarrow> False)"

definition is_container :: "pyval \<Rightarrow> bool" where
  "is_container v = (case v of PyDict kvs \<Rightarrow> True | PyList xs \<Rightarrow> True | _ \<Rightarrow> False)"

text \<open>The value under a key of an object, or the default.\<close>

definition get_or :: "pyval \<Rightarrow> string \<Rightarrow> pyval \<Rightarrow> pyval" where
  "get_or v k d = (case v of PyDict kvs \<Rightarrow> (case map_of kvs k of Some x \<Rightarrow> x | None \<Rightarrow> d) | _ \<Rightarrow> d)"

definition field :: "pyval \<Rightarrow> string \<Rightarrow> pyval" where
  "field v k = get_or v k PyNone"

text \<open>A calendar entry is marked done.\<close>

definition marked_done :: "pyval \<Rightarrow> bool" where
  "marked_done entry = truthy (field entry ''done'')"

text \<open>
  A day record of the calendar: an object whose reward id, when it has one, is not
  itself a list or an object.
\<close>

definition day_record :: "pyval \<Rightarrow> bool" where
  "day_record entry = (is_dict entry \<and> \<not> is_container (field entry ''awardId''))"

text \<open>
  The attendance snapshot of a check response has the calendar \<open>entries\<close>: the
  response's data is an object (or missing), and its calendar (when present) is a list
  of day records.
\<close>

definition calendar_of :: "pyval \<Rightarrow> pyval list \<Rightarrow> bool" where
  "calendar_of check_data entries =
     (case py_get check_data ''data'' (PyDict []) of
        Inl e \<Rightarrow> False
      | Inr data \<Rightarrow>
          py_get data ''calendar'' (PyList []) = Inr (PyList entries) \<and> list_all day_record entries)"

text \<open>The resource catalog of a response: an object (or missing) whose entries are objects.\<close>

definition catalog_of :: "pyval \<Rightarrow> (string \<times> pyval) list \<Rightarrow> bool" where
  "catalog_of response catalog =
     (case py_get response ''data'' (PyDict []) of
        Inl e \<Rightarrow> False
      | Inr data \<Rightarrow>
          py_get data ''resourceInfoMap'' (PyDict []) = Inr (PyDict catalog) \<and>
          list_all (\<lambda>kv. is_dict (snd kv)) catalog)"

text \<open>The check response reports that today's reward has been claimed.\<close>

definition has_claimed_today :: "pyval \<Rightarrow> bool" where
  "has_claimed_today check_data = truthy (field (field check_data ''data'') ''hasToday'')"

text \<open>The reward a catalog entry describes, and the reward a reward id resolves to.\<close>

definition reward_entry :: "pyval \<Rightarrow> pyval" where
  "reward_entry resource =
     PyDict [(''name'', get_or resource ''name'' (PyStr ''Unknown'')),
             (''count'', get_or resource ''count'' (PyInt 0)),
             (''icon'', get_or resource ''icon'' (PyStr []))]"

definition resolve :: "(string \<times> pyval) list \<Rightarrow> pyval \<Rightarrow> pyval option" where
  "resolve catalog award_id =
     (case award_id of
        PyStr k \<Rightarrow> (if k = [] then None else map_option reward_entry (map_of catalog k))
      | _ \<Rightarrow> None)"

definition resolved_rewards :: "(string \<times> pyval) list \<Rightarrow> pyval list \<Rightarrow> pyval list" where
  "resolved_rewards catalog ids = List.map_filter (resolve catalog) ids"

text \<open>The reward ids of the calendar entries marked done, oldest first.\<close>

definition done_award_ids :: "pyval list \<Rightarrow> pyval list" where
  "done_award_ids entries = map (\<lambda>e. field e ''awardId'') (filter marked_done entries)"

text \<open>An awarded reward of a claim response: an object carrying the id, or the id itself.\<close>

definition award_shape :: "pyval \<Rightarrow> bool" where
  "award_shape award = (if is_dict award then \<not> is_container (field award ''id'') else \<not> is_container award)"

definition award_id_of :: "pyval \<Rightarrow> pyval" where
  "award_id_of award = (if is_dict award then field award ''id'' else award)"

definition awards_of :: "pyval \<Rightarrow> pyval list \<Rightarrow> bool" where
  "awards_of claim_data awards =
     (case py_get claim_data ''data'' (PyDict []) of
        Inl e \<Rightarrow> False
      | Inr data \<Rightarrow>
          py_get data ''awardIds'' (PyList []) = Inr (PyList awards) \<and> list_all award_shape awards)"

text \<open>The text of a response's message (empty when the response has none).\<close>

definition message_text :: "pyval \<Rightarrow> string option" where
  "message_text response =
     (case py_get response ''message'' (PyStr []) of Inr (PyStr m) \<Rightarrow> Some m | _ \<Rightarrow> None)"

text \<open>The message contains "already", whatever the case of its letters.\<close>

definition says_already :: "pyval \<Rightarrow> bool" where
  "says_already response = (case message_text response of Some m \<Rightarrow> sublist ''already'' (lower m) | None \<Rightarrow> False)"

text \<open>One of the two "already claimed" codes.\<close>

definition already_code :: "pyval \<Rightarrow> bool" where
  "already_code code = (py_eq_int code 1001 \<or> py_eq_int code 10001)"

text \<open>The reward summary of the success message.\<close>

definition reward_summary :: "env \<Rightarrow> pyval list \<Rightarrow> string" where
  "reward_summary w rewards =
     (if rewards = [] then ''Unknown''
      else join '', '' (map (\<lambda>r. py_str w (field r ''name'') @ '' x'' @ py_str w (field r ''count'')) rewards))"

definition is_claim_request :: "request \<Rightarrow> bool" where
  "is_claim_request req = (verb req = ''POST'' \<and> url req = BASE_URL @ ''/game/endfield/attendance'')"

definition is_oauth_grant :: "request \<Rightarrow> bool" where
  "is_oauth_grant req = (url req = OAUTH_URL @ ''/user/oauth2/v2/grant'')"

text \<open>
  The serialised header object of the signature: the four keys in the order the code
  builds them, no whitespace.
\<close>

definition signing_headers_json :: "string \<Rightarrow> string" where
  "signing_headers_json timestamp =
     ''{'' @ json_string ''platform'' @ '':'' @ json_string PLATFORM @ '','' @
            json_string ''timestamp'' @ '':'' @ json_string timestamp @ '','' @
            json_string ''dId'' @ '':'' @ json_string [] @ '','' @
            json_string ''vName'' @ '':'' @ json_string VNAME @ ''}''"

text \<open>The requests an operation issued: those of the later session that the earlier lacks.\<close>

definition issued_since :: "adapter \<Rightarrow> adapter \<Rightarrow> request list" where
  "issued_since s s' = drop (length (session s)) (session s')"

text \<open>The three hops of the credential exchange, and the two attendance calls.\<close>

definition is_cred_exchange :: "request \<Rightarrow> bool" where
  "is_cred_exchange req = (url req = BASE_URL @ ''/user/auth/generate_cred_by_code'')"

definition is_refresh :: "request \<Rightarrow> bool" where
  "is_refresh req = (url req = BASE_URL @ ''/auth/refresh'')"

definition is_exchange_step :: "request \<Rightarrow> bool" where
  "is_exchange_step req = (is_oauth_grant req \<or> is_cred_exchange req \<or> is_refresh req)"

definition is_binding_lookup :: "request \<Rightarrow> bool" where
  "is_binding_lookup req = (url req = API_BASE_URL @ ''/game/player/binding'')"

definition is_attendance :: "request \<Rightarrow> bool" where
  "is_attendance req = (url req = BASE_URL @ ''/game/endfield/attendance'')"

text \<open>
  The upstream answers a request with a success status: a decoded object whose status
  field (\<^verbatim>\<open>status\<close> for the OAuth grant, \<^verbatim>\<open>code\<close> elsewhere) is 0.
\<close>

definition success_status :: "env \<Rightarrow> request \<Rightarrow> bool" where
  "success_status w req =
     (case http w req of
        Inl e \<Rightarrow> False
      | Inr data \<Rightarrow> py_eq_int (field data (if is_oauth_grant req then ''status'' else ''code'')) 0)"

text \<open>
  A well-formed outcome: the five fields, with booleans for success and already signed and
  an integer total, and never already signed without success.
\<close>

definition consistent_outcome :: "pyval \<Rightarrow> bool" where
  "consistent_outcome result =
     (\<exists>success message already reward total.
        result = outcome success message already reward total \<and> (already \<longrightarrow> success))"

text \<open>
  A raw token is short-form: it does not start like an encoded token and is shorter than
  100 characters.
\<close>

definition short_form :: "string \<Rightarrow> bool" where
  "short_form token = (\<not> prefix ''eyJ'' token \<and> length token < 100)"

text \<open>The token refresh succeeds: a zero code and a nested, non-empty token string.\<close>

definition refresh_succeeds :: "pyexc + pyval \<Rightarrow> bool" where
  "refresh_succeeds reply =
     (case reply of
        Inl e \<Rightarrow> False
      | Inr data \<Rightarrow>
          py_eq_int (field data ''code'') 0 \<and>
          (case field (field data ''data'') ''token'' of PyStr t \<Rightarrow> t \<noteq> [] | _ \<Rightarrow> False))"

text \<open>
  The binding lookup fails or has no entry for the target game: the call raises, the
  code is not 0, or no element of the list of applications has the code "endfield".
\<close>

definition no_endfield_binding :: "pyexc + pyval \<Rightarrow> bool" where
  "no_endfield_binding reply =
     (case reply of
        Inl e \<Rightarrow> True
      | Inr data \<Rightarrow>
          (if py_eq_int (field data ''code'') 0
           then (case field (field data ''data'') ''list'' of
                   PyList apps \<Rightarrow> list_all (\<lambda>app. \<not> py_eq_str (field app ''appCode'') ''endfield'') apps
                 | _ \<Rightarrow> True)
           else True))"

text \<open>The names of the headers every signed request carries.\<close>

definition signed_header_names :: "string list" where
  "signed_header_names = [''cred'', ''platform'', ''vname'', ''timestamp'', ''sk-language'', ''sign'']"

section \<open>Example environments\<close>

text \<open>
  An environment with a given upstream: the clock starts at 100 and advances by one at
  each reading, and the digests are left symbolic, wrapping their arguments in text.
\<close>

definition example_env :: "(request \<Rightarrow> pyexc + pyval) \<Rightarrow> env" where
  "example_env upstream =
     \<lparr>http = upstream, clock = (\<lambda>n. 100 + int n),
      hmac_sha256_hexdigest = (\<lambda>key msg. ''hmac['' @ key @ ''|'' @ msg @ '']''),
      md5_hexdigest = (\<lambda>msg. ''md5['' @ msg @ '']''),
      exc_str = (\<lambda>e. case e of RequestException text \<Rightarrow> text | _ \<Rightarrow> ''error''),
      container_str = (\<lambda>v. ''...'')\<rparr>"

definition offline :: "request \<Rightarrow> pyexc + pyval" where
  "offline req = Inl (RequestException ''connection refused'')"

text \<open>
  An upstream that lets every step of the exchange succeed, binds one Endfield role, and
  answers the attendance check and the claim with the two given payloads.
\<close>

definition example_upstream :: "pyval \<Rightarrow> pyval \<Rightarrow> request \<Rightarrow> pyexc + pyval" where
  "example_upstream check_reply claim_reply req =
     (if is_oauth_grant req then
        Inr (PyDict [(''status'', PyInt 0), (''data'', PyDict [(''code'', PyStr ''oauth-code'')])])
      else if is_cred_exchange req then
        Inr (PyDict [(''code'', PyInt 0), (''data'', PyDict [(''cred'', PyStr ''cred-value'')])])
      else if is_refresh req then
        Inr (PyDict [(''code'', PyInt 0), (''data'', PyDict [(''token'', PyStr ''signing-token'')])])
      else if is_binding_lookup req then
        Inr (PyDict [(''code'', PyInt 0), (''data'', PyDict [(''list'', PyList [
          PyDict [(''appCode'', PyStr ''endfield''), (''bindingList'', PyList [
            PyDict [(''defaultRole'', PyDict [(''roleId'', PyStr ''42''), (''serverId'', PyInt 2)])]])]])])])
      else if is_attendance req then Inr (if verb req = ''GET'' then check_reply else claim_reply)
      else Inl (RequestException ''no such endpoint''))"

text \<open>
  A check response: three calendar entries, the first two done, and a catalog that knows
  the rewards of the first two.
\<close>

definition example_calendar :: "pyval list" where
  "example_calendar =
     [PyDict [(''done'', PyBool True), (''awardId'', PyStr ''a1'')],
      PyDict [(''done'', PyBool True), (''awardId'', PyStr ''a2'')],
      PyDict [(''done'', PyBool False), (''awardId'', PyStr ''a3'')]]"

definition example_catalog :: "(string \<times> pyval) list" where
  "example_catalog =
     [(''a1'', PyDict [(''name'', PyStr ''Originium''), (''count'', PyInt 5), (''icon'', PyStr ''o.png'')]),
      (''a2'', PyDict [(''name'', PyStr ''Orundum''), (''count'', PyInt 100)])]"

definition example_check :: "bool \<Rightarrow> pyval" where
  "example_check has_today =
     PyDict [(''code'', PyInt 0), (''message'', PyStr ''OK''),
             (''data'', PyDict [(''hasToday'', PyBool has_today), (''calendar'', PyList example_calendar),
                                (''resourceInfoMap'', PyDict example_catalog)])]"

text \<open>A claim response with a given code and message, awarding the reward \<open>a2\<close>.\<close>

definition example_claim :: "int \<Rightarrow> string \<Rightarrow> pyval" where
  "example_claim code message =
     PyDict [(''code'', PyInt code), (''message'', PyStr message),
             (''data'', PyDict [(''awardIds'', PyList [PyDict [(''id'', PyStr ''a2'')]]),
                                (''resourceInfoMap'', PyDict example_catalog)])]"

text \<open>The example upstream, except that it rejects the token refresh.\<close>

definition refresh_rejected :: "request \<Rightarrow> pyexc + pyval" where
  "refresh_rejected req =
     (if is_refresh req then Inr (PyDict [(''code'', PyInt 10001), (''message'', PyStr ''invalid cred'')])
      else example_upstream PyNone PyNone req)"

text \<open>The example upstream, except that the account has no binding for the target game.\<close>

definition unbound_upstream :: "pyval \<Rightarrow> pyval \<Rightarrow> request \<Rightarrow> pyexc + pyval" where
  "unbound_upstream check_reply claim_reply req =
     (if is_binding_lookup req then
        Inr (PyDict [(''code'', PyInt 0), (''data'', PyDict [(''list'', PyList [
          PyDict [(''appCode'', PyStr ''arknights''), (''bindingList'', PyList [])]])])])
      else example_upstream check_reply claim_reply req)"

section \<open>Basic facts\<close>

lemma bind_exc_simps [simp]:
  "bind_exc (Inl e) f = Inl e"
  "bind_exc (Inr v) f = f v"
  by (simp_all add: bind_exc_def)

lemma py_get_dict: "is_dict v \<Longrightarrow> py_get v k d = Inr (get_or v k d)"
  by (cases v) (simp_all add: is_dict_def get_or_def)

section \<open>The decision logic on well-formed payloads\<close>

lemma is_dictE: "is_dict v \<Longrightarrow> (\<And>kvs. v = PyDict kvs \<Longrightarrow> P) \<Longrightarrow> P"
  by (cases v) (simp_all add: is_dict_def)

lemma count_done_records:
  "list_all is_dict entries \<Longrightarrow> count_done entries = Inr (length (filter marked_done entries))"
proof (induction entries)
  case Nil
  then show ?case by simp
next
  case (Cons e es)
  then have "is_dict e" by simp
  then obtain kvs where e: "e = PyDict kvs" by (rule is_dictE)
  have "truthy (case map_of kvs ''done'' of None \<Rightarrow> PyBool False | Some v \<Rightarrow> v) = marked_done e"
    by (simp add: e marked_done_def field_def get_or_def split: option.splits)
  with Cons show ?case by (simp add: e)
qed

lemma reward_info_dict: "is_dict resource \<Longrightarrow> reward_info resource = Inr (reward_entry resource)"
  by (simp add: reward_info_def reward_entry_def py_get_dict)

text \<open>Whether a reward id is found in the catalog, as the loops test it.\<close>

lemma lookup_award:
  assumes "\<not> is_container award_id"
  shows "(if truthy award_id then py_contains (PyDict catalog) award_id else Inr False) =
           Inr (resolve catalog award_id \<noteq> None)"
proof (cases award_id)
  case (PyStr k)
  have "(k \<in> fst ` set catalog) = (map_of catalog k \<noteq> None)"
    by (simp add: map_of_eq_None_iff)
  then show ?thesis by (simp add: PyStr resolve_def)
qed (use assms in \<open>simp_all add: resolve_def is_container_def\<close>)

lemma getitem_award:
  assumes "resolve catalog award_id = Some r" and "list_all (\<lambda>kv. is_dict (snd kv)) catalog"
  shows "\<exists>res. py_getitem (PyDict catalog) award_id = Inr res \<and> reward_info res = Inr r"
proof -
  from assms(1) obtain k res where k: "award_id = PyStr k" "map_of catalog k = Some res" "r = reward_entry res"
    by (auto simp: resolve_def split: pyval.splits if_splits)
  from k(2) have "(k, res) \<in> set catalog" by (rule map_of_SomeD)
  with assms(2) have "is_dict res" by (auto simp: list_all_iff)
  then show ?thesis by (simp add: k reward_info_dict)
qed

lemma last_reward_resolved:
  assumes "list_all day_record entries" and "list_all (\<lambda>kv. is_dict (snd kv)) catalog"
  shows "last_reward (PyDict catalog) acc entries =
           Inr (case resolved_rewards catalog (done_award_ids entries) of [] \<Rightarrow> acc | r # rs \<Rightarrow> last (r # rs))"
  using assms(1)
proof (induction entries arbitrary: acc)
  case Nil
  then show ?case by (simp add: resolved_rewards_def done_award_ids_def map_filter_simps)
next
  case (Cons e es)
  then have es: "list_all day_record es" and "day_record e" by simp_all
  then have de: "is_dict e" and nc: "\<not> is_container (field e ''awardId'')"
    by (simp_all add: day_record_def)
  have g1: "py_get e ''done'' PyNone = Inr (field e ''done'')"
    and g2: "py_get e ''awardId'' PyNone = Inr (field e ''awardId'')"
    using de by (simp_all add: py_get_dict field_def)
  show ?case
  proof (cases "marked_done e")
    case False
    then show ?thesis
      using Cons.IH[OF es] by (simp add: g1 marked_done_def done_award_ids_def)
  next
    case True
    show ?thesis
    proof (cases "resolve catalog (field e ''awardId'')")
      case None
      then show ?thesis
        using True Cons.IH[OF es] lookup_award[OF nc, of catalog]
        by (simp add: g1 g2 marked_done_def[symmetric] done_award_ids_def resolved_rewards_def map_filter_simps)
    next
      case (Some r)
      have "last_reward (PyDict catalog) acc (e # es) = last_reward (PyDict catalog) r es"
        using True lookup_award[OF nc, of catalog] getitem_award[OF Some assms(2)] Some
        by (auto simp add: g1 g2 marked_done_def[symmetric])
      then show ?thesis
        using True Some Cons.IH[OF es, of r]
        by (simp add: done_award_ids_def resolved_rewards_def map_filter_simps split: list.splits)
    qed
  qed
qed

lemma collect_rewards_resolved:
  assumes "list_all award_shape awards" and "list_all (\<lambda>kv. is_dict (snd kv)) catalog"
  shows "collect_rewards (PyDict catalog) awards = Inr (resolved_rewards catalog (map award_id_of awards))"
  using assms(1)
proof (induction awards)
  case Nil
  then show ?case by (simp add: resolved_rewards_def map_filter_simps)
next
  case (Cons a as)
  then have as: "list_all award_shape as" and "award_shape a" by simp_all
  then have nc: "\<not> is_container (award_id_of a)"
    by (simp add: award_shape_def award_id_of_def split: if_splits)
  have id: "(case a of PyDict kvs \<Rightarrow> py_get a ''id'' PyNone | _ \<Rightarrow> Inr a) = Inr (award_id_of a)"
    by (cases a) (simp_all add: award_id_of_def is_dict_def field_def get_or_def)
  show ?case
  proof (cases "resolve catalog (award_id_of a)")
    case None
    then show ?thesis
      using Cons.IH[OF as] lookup_award[OF nc, of catalog]
      by (simp add: id resolved_rewards_def map_filter_simps)
  next
    case (Some r)
    then show ?thesis
      using Cons.IH[OF as] lookup_award[OF nc, of catalog] getitem_award[OF Some assms(2)]
      by (auto simp add: id resolved_rewards_def map_filter_simps)
  qed
qed

lemma resolved_rewards_entries:
  "r \<in> set (resolved_rewards catalog ids) \<Longrightarrow> \<exists>res. r = reward_entry res"
  by (induction ids)
    (auto simp: resolved_rewards_def resolve_def split: pyval.splits if_splits option.splits)

lemma resolved_rewards_Nil [simp]: "resolved_rewards catalog [] = []"
  by (simp add: resolved_rewards_def)

lemma resolved_rewards_no_catalog [simp]: "resolved_rewards [] ids = []"
  by (induction ids) (simp_all add: resolved_rewards_def map_filter_simps resolve_def split: pyval.splits)

lemma reward_parts_entries:
  "\<forall>r \<in> set rewards. \<exists>res. r = reward_entry res \<Longrightarrow>
   reward_parts w rewards =
     Inr (map (\<lambda>r. py_str w (field r ''name'') @ '' x'' @ py_str w (field r ''count'')) rewards)"
  by (induction rewards) (auto simp: reward_entry_def field_def get_or_def)

lemma field_code_dict: "py_eq_int (field v ''code'') k \<Longrightarrow> is_dict v"
  by (cases v) (simp_all add: field_def get_or_def is_dict_def)

lemma py_get_field: "is_dict v \<Longrightarrow> py_get v k PyNone = Inr (field v k)"
  by (simp add: py_get_dict field_def)

lemma py_get_list_dict: "py_get v k d = Inr (PyList xs) \<Longrightarrow> is_dict v"
  by (cases v) (simp_all add: is_dict_def)

lemma calendar_ofD:
  assumes "calendar_of check_data entries"
  obtains data where "py_get check_data ''data'' (PyDict []) = Inr data" and "is_dict data"
    and "py_get data ''calendar'' (PyList []) = Inr (PyList entries)" and "list_all day_record entries"
  using assms by (auto simp: calendar_of_def split: sum.splits dest: py_get_list_dict)

lemma has_today_field:
  assumes "py_get check_data ''data'' (PyDict []) = Inr data" and "is_dict data"
  shows "\<exists>t. py_get data ''hasToday'' (PyBool False) = Inr t \<and> truthy t = has_claimed_today check_data"
proof -
  from assms(2) obtain kvs where kvs: "data = PyDict kvs" by (rule is_dictE)
  from assms(1) have "field check_data ''data'' = data \<or> data = PyDict [] \<and> field check_data ''data'' = PyNone"
    by (cases check_data) (auto simp: field_def get_or_def split: option.splits)
  then show ?thesis
    by (auto simp: kvs has_claimed_today_def field_def get_or_def split: option.splits)
qed

lemma day_records_dicts: "list_all day_record entries \<Longrightarrow> list_all is_dict entries"
  by (simp add: list_all_iff day_record_def)

lemma interpret_check_unclaimed:
  assumes "py_eq_int (field check_data ''code'') 0" and "\<not> has_claimed_today check_data"
    and "calendar_of check_data entries"
  shows "interpret_check check_data = Inr (Unclaimed (length (filter marked_done entries)))"
proof -
  from assms(1) have d: "is_dict check_data" by (rule field_code_dict)
  from assms(3) obtain data where data: "py_get check_data ''data'' (PyDict []) = Inr data"
    and dd: "is_dict data"
    and cal: "py_get data ''calendar'' (PyList []) = Inr (PyList entries)"
    and rec: "list_all day_record entries"
    by (rule calendar_ofD)
  from has_today_field[OF data dd] assms(2) obtain t
    where t: "py_get data ''hasToday'' (PyBool False) = Inr t" "\<not> truthy t" by auto
  show ?thesis
    using assms(1) t(2)
    by (simp add: interpret_check_def py_get_field[OF d] data t(1) cal
        count_done_records[OF day_records_dicts[OF rec]] py_get_dict[OF dd, of "''resourceInfoMap''"])
qed

lemma interpret_check_claimed:
  assumes "py_eq_int (field check_data ''code'') 0" and "has_claimed_today check_data"
    and "calendar_of check_data entries" and "catalog_of check_data catalog"
  shows "interpret_check check_data =
           Inr (Returned (outcome True (PyStr ''Already signed in today'') True
                  (case resolved_rewards catalog (done_award_ids entries) of [] \<Rightarrow> PyNone | r # rs \<Rightarrow> last (r # rs))
                  (int (length (filter marked_done entries)))))"
proof -
  from assms(1) have d: "is_dict check_data" by (rule field_code_dict)
  from assms(3) obtain data where data: "py_get check_data ''data'' (PyDict []) = Inr data"
    and dd: "is_dict data"
    and cal: "py_get data ''calendar'' (PyList []) = Inr (PyList entries)"
    and rec: "list_all day_record entries"
    by (rule calendar_ofD)
  from assms(4) data have cat: "py_get data ''resourceInfoMap'' (PyDict []) = Inr (PyDict catalog)"
    and res: "list_all (\<lambda>kv. is_dict (snd kv)) catalog"
    by (simp_all add: catalog_of_def)
  from has_today_field[OF data dd] assms(2) obtain t
    where t: "py_get data ''hasToday'' (PyBool False) = Inr t" "truthy t" by auto
  show ?thesis
    using assms(1) t(2)
    by (simp add: interpret_check_def py_get_field[OF d] data t(1) cal cat
        count_done_records[OF day_records_dicts[OF rec]] last_reward_resolved[OF rec res])
qed

lemma interpret_claim_success:
  assumes "py_eq_int (field claim_data ''code'') 0" and "awards_of claim_data awards"
    and "catalog_of claim_data catalog"
  shows "interpret_claim w n claim_data =
           Inr (outcome True
                  (PyStr (''Signed in successfully! Rewards: '' @
                          reward_summary w (resolved_rewards catalog (map award_id_of awards))))
                  False
                  (case resolved_rewards catalog (map award_id_of awards) of [] \<Rightarrow> PyNone | r # rs \<Rightarrow> r)
                  (int n + 1))"
proof -
  let ?rs = "resolved_rewards catalog (map award_id_of awards)"
  from assms(1) have d: "is_dict claim_data" by (rule field_code_dict)
  from assms(2) obtain data where data: "py_get claim_data ''data'' (PyDict []) = Inr data"
    and aw: "py_get data ''awardIds'' (PyList []) = Inr (PyList awards)"
    and sh: "list_all award_shape awards"
    by (auto simp: awards_of_def split: sum.splits)
  from assms(3) data have cat: "py_get data ''resourceInfoMap'' (PyDict []) = Inr (PyDict catalog)"
    and res: "list_all (\<lambda>kv. is_dict (snd kv)) catalog"
    by (simp_all add: catalog_of_def)
  have rewards: "(if awards \<noteq> [] \<and> catalog \<noteq> [] then collect_rewards (PyDict catalog) awards else Inr []) = Inr ?rs"
    using collect_rewards_resolved[OF sh res] by auto
  have entries: "\<forall>r \<in> set ?rs. \<exists>res. r = reward_entry res"
    by (auto dest: resolved_rewards_entries)
  have tail: "bind_exc (case ?rs of [] \<Rightarrow> Inr PyNone | r # rs \<Rightarrow> Inr r) (\<lambda>primary_reward.
              bind_exc (if ?rs \<noteq> [] then map_sum id (join '', '') (reward_parts w ?rs) else Inr ''Unknown'') (\<lambda>reward_text.
                Inr (outcome True (PyStr (''Signed in successfully! Rewards: '' @ reward_text)) False
                       primary_reward (int n + 1)))) =
             Inr (outcome True (PyStr (''Signed in successfully! Rewards: '' @ reward_summary w ?rs)) False
                    (case ?rs of [] \<Rightarrow> PyNone | r # rs \<Rightarrow> r) (int n + 1))"
    by (simp add: reward_parts_entries[OF entries] reward_summary_def split: list.splits)
  obtain m where m: "py_get claim_data ''message'' (PyStr []) = Inr m"
    using d by (auto simp: py_get_dict)
  have "interpret_claim w n claim_data =
          bind_exc (if awards \<noteq> [] \<and> catalog \<noteq> [] then collect_rewards (PyDict catalog) awards else Inr [])
            (\<lambda>rewards.
             bind_exc (case rewards of [] \<Rightarrow> Inr PyNone | r # rs \<Rightarrow> Inr r) (\<lambda>primary_reward.
             bind_exc (if rewards \<noteq> [] then map_sum id (join '', '') (reward_parts w rewards) else Inr ''Unknown'') (\<lambda>reward_text.
               Inr (outcome True (PyStr (''Signed in successfully! Rewards: '' @ reward_text)) False
                      primary_reward (int n + 1)))))"
    using assms(1) by (simp add: interpret_claim_def py_get_field[OF d] m data aw cat)
  also have "\<dots> = Inr (outcome True (PyStr (''Signed in successfully! Rewards: '' @ reward_summary w ?rs)) False
                    (case ?rs of [] \<Rightarrow> PyNone | r # rs \<Rightarrow> r) (int n + 1))"
    unfolding rewards bind_exc_simps by (rule tail)
  finally show ?thesis .
qed

lemma message_textD:
  "message_text response = Some m \<Longrightarrow> is_dict response \<and> py_get response ''message'' (PyStr []) = Inr (PyStr m)"
  by (cases response) (auto simp: message_text_def is_dict_def split: pyval.splits option.splits)

lemma interpret_claim_already:
  assumes "\<not> py_eq_int (field claim_data ''code'') 0"
    and "already_code (field claim_data ''code'') \<or> says_already claim_data"
  shows "interpret_claim w n claim_data =
           Inr (outcome True (PyStr ''Already signed in today'') True PyNone (int n))"
proof -
  from assms(2) have d: "is_dict claim_data"
    by (auto simp: already_code_def says_already_def split: option.splits
        dest: field_code_dict message_textD)
  then obtain m where m: "py_get claim_data ''message'' (PyStr []) = Inr m"
    by (auto simp: py_get_dict)
  have "already_code (field claim_data ''code'') \<or> (\<exists>t. m = PyStr t \<and> sublist ''already'' (lower t))"
    using assms(2) m by (auto simp: says_already_def split: option.splits dest: message_textD)
  then show ?thesis
    using assms(1)
    by (auto simp: interpret_claim_def py_get_field[OF d] m already_code_def)
qed

lemma interpret_claim_failure:
  assumes "\<not> py_eq_int (field claim_data ''code'') 0"
    and "\<not> already_code (field claim_data ''code'')" and "\<not> says_already claim_data"
    and "message_text claim_data = Some m"
  shows "interpret_claim w n claim_data =
           Inr (if py_eq_int (field claim_data ''code'') 10002
                then outcome False (PyStr ''Account token expired. Please update your token.'') False PyNone 0
                else outcome False
                       (PyStr (''API Error (code '' @ py_str w (field claim_data ''code'') @ ''): '' @ m))
                       False PyNone (int n))"
proof -
  from message_textD[OF assms(4)] have d: "is_dict claim_data"
    and m: "py_get claim_data ''message'' (PyStr []) = Inr (PyStr m)" by simp_all
  from assms(3,4) have "\<not> sublist ''already'' (lower m)" by (simp add: says_already_def)
  then show ?thesis
    using assms(1,2)
    by (simp add: interpret_claim_def py_get_field[OF d] m already_code_def py_str_def)
qed

section \<open>Signature engine\<close>

text \<open>
  Claim C3. With a signing token \<open>key\<close>, the signature of \<open>path\<close>, \<open>body\<close> and
  \<open>timestamp\<close> is the MD5 hex digest of the (encoded) HMAC-SHA256 hex digest, keyed by the
  encoded token, of the encoded concatenation of path, body, timestamp and the header
  object serialised as compact JSON with the keys platform, timestamp, dId (the empty
  device id) and vName (the client version) in this order. The result depends on nothing
  else of the adapter, and computing it changes no state.
\<close>

theorem compute_sign_digest:
  "compute_sign w (s\<lparr>sign_token := PyStr key\<rparr>) path body timestamp =
     Inr (md5_hexdigest w (encode (hmac_sha256_hexdigest w (encode key)
            (encode (path @ body @ timestamp @ signing_headers_json timestamp)))))"
  by (simp add: compute_sign_def signing_headers_json_def)

theorem compute_sign_digest_witness:
  "compute_sign (example_env offline) ((EndfieldAdapter ''cred'' ''demo'')\<lparr>sign_token := PyStr ''key''\<rparr>)
     ''/p'' ''b'' ''17'' =
   Inr (''md5[hmac[key|/pb17'' @ signing_headers_json ''17'' @ '']]'')"
  using compute_sign_digest [where w = "example_env offline" and s = "EndfieldAdapter ''cred'' ''demo''"
      and key = "''key''" and path = "''/p''" and body = "''b''" and timestamp = "''17''"]
  by (simp add: example_env_def signing_headers_json_def json_string_def json_escape_char_def
      encode_def encode_char_def PLATFORM_def VNAME_def)

section \<open>The requests an invocation issues\<close>

lemma except_None_simps [simp]: "except_None (Inl e) = PyNone" "except_None (Inr v) = v"
  by (simp_all add: except_None_def)

lemma session_issue [simp]: "session (issue req s) = session s @ [req]"
  by (simp add: issue_def)

lemma issue_fields [simp]:
  "cred (issue req s) = cred s" "sign_token (issue req s) = sign_token s"
  "game_role (issue req s) = game_role s" "account_token (issue req s) = account_token s"
  "clock_reads (issue req s) = clock_reads s"
  by (simp_all add: issue_def)

lemma timestamp_now_fields [simp]:
  "session (snd (timestamp_now w s)) = session s" "cred (snd (timestamp_now w s)) = cred s"
  "sign_token (snd (timestamp_now w s)) = sign_token s" "game_role (snd (timestamp_now w s)) = game_role s"
  "account_token (snd (timestamp_now w s)) = account_token s"
  by (simp_all add: timestamp_now_def)

lemma get_oauth_code_state [simp]: "snd (get_oauth_code w s) = issue (oauth_request s) s"
  by (simp add: get_oauth_code_def Let_def)

lemma get_cred_state [simp]: "snd (get_cred w s c) = issue (cred_request c) s"
  by (simp add: get_cred_def Let_def)

lemma get_sign_token_state [simp]:
  "snd (get_sign_token w s) =
     issue (refresh_request (snd (timestamp_now w s)) (fst (timestamp_now w s))) (snd (timestamp_now w s))"
  by (simp add: get_sign_token_def Let_def split: prod.splits)

text \<open>A truthy result of a step means the upstream answered with a success status.\<close>

lemma status_ok_success:
  "status_ok data f k = Inr True \<Longrightarrow> py_eq_int (field data f) 0"
  by (cases data) (auto simp: status_ok_def field_def get_or_def split: if_splits option.splits)

lemma get_oauth_code_truthy:
  "truthy (fst (get_oauth_code w s)) \<Longrightarrow> success_status w (oauth_request s)"
  by (auto simp: get_oauth_code_def Let_def success_status_def is_oauth_grant_def oauth_request_def
      except_None_def bind_exc_def split: sum.splits if_splits dest: status_ok_success)

lemma get_cred_truthy:
  "truthy (fst (get_cred w s c)) \<Longrightarrow> success_status w (cred_request c)"
  by (auto simp: get_cred_def Let_def success_status_def is_oauth_grant_def cred_request_def
      OAUTH_URL_def BASE_URL_def
      except_None_def bind_exc_def split: sum.splits if_splits dest: status_ok_success)

lemma get_sign_token_truthy:
  "truthy (fst (get_sign_token w s)) \<Longrightarrow>
   success_status w (refresh_request (snd (timestamp_now w s)) (fst (timestamp_now w s)))"
  by (auto simp: get_sign_token_def Let_def success_status_def is_oauth_grant_def refresh_request_def
      OAUTH_URL_def BASE_URL_def timestamp_now_def
      except_None_def bind_exc_def split: sum.splits if_splits prod.splits dest: status_ok_success)

lemma get_player_binding_session:
  "session (snd (get_player_binding w s)) = session s \<or>
   (\<exists>req. is_binding_lookup req \<and> session (snd (get_player_binding w s)) = session s @ [req])"
  by (auto simp: get_player_binding_def Let_def timestamp_now_def binding_request_def is_binding_lookup_def
      split: sum.splits)

lemma get_player_binding_fields [simp]:
  "cred (snd (get_player_binding w s)) = cred s"
  "sign_token (snd (get_player_binding w s)) = sign_token s"
  "game_role (snd (get_player_binding w s)) = game_role s"
  by (auto simp: get_player_binding_def Let_def timestamp_now_def split: sum.splits)

lemma finish_authentication_unfold:
  "finish_authentication w s =
     (let r = get_sign_token w s
      in if \<not> truthy (fst r) then (False, snd r)
         else (let b = get_player_binding w ((snd r)\<lparr>sign_token := fst r\<rparr>)
               in (True, (snd b)\<lparr>game_role := fst b\<rparr>)))"
  by (simp add: finish_authentication_def Let_def split_beta)

lemma authenticate_unfold:
  "authenticate w s =
     (if \<not> truthy (cred s)
      then (let g = get_oauth_code w s
            in if \<not> truthy (fst g) then (False, snd g)
               else (let c = get_cred w (snd g) (fst g)
                     in if \<not> truthy (fst c) then (False, snd c)
                        else finish_authentication w ((snd c)\<lparr>cred := fst c\<rparr>)))
      else finish_authentication w s)"
  by (simp add: authenticate_def Let_def split_beta)

lemma url_facts [simp]:
  "is_exchange_step (oauth_request s)" "is_exchange_step (cred_request c)"
  "is_exchange_step (refresh_request s t)"
  "\<not> is_attendance (oauth_request s)" "\<not> is_attendance (cred_request c)"
  "\<not> is_attendance (refresh_request s t)"
  "is_binding_lookup req \<Longrightarrow> \<not> is_attendance req"
  "is_binding_lookup req \<Longrightarrow> \<not> is_exchange_step req"
  "is_attendance req \<Longrightarrow> \<not> is_exchange_step req"
  by (simp_all add: is_exchange_step_def is_oauth_grant_def is_cred_exchange_def is_refresh_def
      is_attendance_def is_binding_lookup_def oauth_request_def cred_request_def refresh_request_def
      OAUTH_URL_def BASE_URL_def API_BASE_URL_def)

lemma finish_authentication_trace:
  assumes "finish_authentication w s = (ok, s')"
  shows "\<exists>new. session s' = session s @ new \<and> (\<forall>req \<in> set new. \<not> is_attendance req) \<and>
           (ok \<longrightarrow> (\<forall>req \<in> set new. is_exchange_step req \<longrightarrow> success_status w req))"
proof (cases "truthy (fst (get_sign_token w s))")
  case False
  with assms show ?thesis
    by (auto simp: finish_authentication_unfold Let_def)
next
  case True
  let ?r = "refresh_request (snd (timestamp_now w s)) (fst (timestamp_now w s))"
  let ?s1 = "(snd (get_sign_token w s))\<lparr>sign_token := fst (get_sign_token w s)\<rparr>"
  have ok: "success_status w ?r" using True by (rule get_sign_token_truthy)
  have s': "s' = (snd (get_player_binding w ?s1))\<lparr>game_role := fst (get_player_binding w ?s1)\<rparr>"
    using assms True by (simp add: finish_authentication_unfold Let_def)
  from get_player_binding_session[of w ?s1]
  show ?thesis
  proof
    assume "session (snd (get_player_binding w ?s1)) = session ?s1"
    then have "session s' = session s @ [?r]" by (simp add: s')
    with ok show ?thesis by auto
  next
    assume "\<exists>req. is_binding_lookup req \<and> session (snd (get_player_binding w ?s1)) = session ?s1 @ [req]"
    then obtain req where "is_binding_lookup req" "session s' = session s @ [?r, req]"
      by (auto simp: s')
    with ok show ?thesis by auto
  qed
qed

lemma authenticate_trace:
  assumes "authenticate w s = (ok, s')"
  shows "\<exists>new. session s' = session s @ new \<and> (\<forall>req \<in> set new. \<not> is_attendance req) \<and>
           (ok \<longrightarrow> (\<forall>req \<in> set new. is_exchange_step req \<longrightarrow> success_status w req))"
proof (cases "truthy (cred s)")
  case True
  with assms have "finish_authentication w s = (ok, s')" by (simp add: authenticate_unfold)
  then show ?thesis by (rule finish_authentication_trace)
next
  case nocred: False
  show ?thesis
  proof (cases "truthy (fst (get_oauth_code w s))")
    case False
    with assms nocred show ?thesis by (auto simp: authenticate_unfold Let_def)
  next
    case code: True
    let ?s1 = "issue (oauth_request s) s"
    let ?c = "get_cred w ?s1 (fst (get_oauth_code w s))"
    show ?thesis
    proof (cases "truthy (fst ?c)")
      case False
      with assms nocred code show ?thesis by (auto simp: authenticate_unfold Let_def)
    next
      case True
      let ?s2 = "(issue (cred_request (fst (get_oauth_code w s))) ?s1)\<lparr>cred := fst ?c\<rparr>"
      from assms nocred code True have "finish_authentication w ?s2 = (ok, s')"
        by (simp add: authenticate_unfold Let_def)
      from finish_authentication_trace[OF this] obtain new
        where new: "session s' = session ?s2 @ new" "\<forall>req \<in> set new. \<not> is_attendance req"
          "ok \<longrightarrow> (\<forall>req \<in> set new. is_exchange_step req \<longrightarrow> success_status w req)"
        by blast
      have "session s' = session s @ (oauth_request s # cred_request (fst (get_oauth_code w s)) # new)"
        using new(1) by simp
      moreover have "success_status w (oauth_request s)" using code by (rule get_oauth_code_truthy)
      moreover have "success_status w (cred_request (fst (get_oauth_code w s)))"
        using True by (rule get_cred_truthy)
      ultimately show ?thesis using new(2,3) by (intro exI[of _ "oauth_request s # cred_request (fst (get_oauth_code w s)) # new"]) auto
    qed
  qed
qed

lemma check_attendance_session:
  "session (snd (check_attendance w s)) = session s \<or>
   (\<exists>t g. session (snd (check_attendance w s)) = session s @ [check_request (snd (timestamp_now w s)) t g])"
  by (auto simp: check_attendance_def Let_def split_beta split: sum.splits)

lemma claim_attendance_session:
  "session (snd (claim_attendance w s)) = session s \<or>
   (\<exists>t g. session (snd (claim_attendance w s)) = session s @ [claim_request (snd (timestamp_now w s)) t g])"
  by (auto simp: claim_attendance_def Let_def split_beta split: sum.splits)

lemma attendance_fields [simp]:
  "cred (snd (check_attendance w s)) = cred s"
  "sign_token (snd (check_attendance w s)) = sign_token s"
  "game_role (snd (check_attendance w s)) = game_role s"
  "cred (snd (claim_attendance w s)) = cred s"
  "sign_token (snd (claim_attendance w s)) = sign_token s"
  "game_role (snd (claim_attendance w s)) = game_role s"
  by (auto simp: check_attendance_def claim_attendance_def Let_def split_beta split: sum.splits)

lemma check_request_facts [simp]:
  "is_attendance (check_request s t g)" "\<not> is_claim_request (check_request s t g)"
  "is_attendance (claim_request s t g)" "is_claim_request (claim_request s t g)"
  by (simp_all add: is_attendance_def is_claim_request_def check_request_def claim_request_def)

lemma claim_is_attendance: "is_claim_request req \<Longrightarrow> is_attendance req"
  by (simp add: is_claim_request_def is_attendance_def)

lemma issued_since_append [simp]: "session s' = session s @ new \<Longrightarrow> issued_since s s' = new"
  by (simp add: issued_since_def)

section \<open>Outcomes of \<^verbatim>\<open>perform_checkin\<close>\<close>

lemma perform_checkin_run:
  assumes "authenticate w s = (True, s1)" and "check_attendance w s1 = (check_data, s2)"
  shows "perform_checkin w s =
           (case interpret_check check_data of
              Inl e \<Rightarrow> (exception_outcome w e, s2)
            | Inr (Returned result) \<Rightarrow> (result, s2)
            | Inr (Unclaimed total_signed) \<Rightarrow>
                (case interpret_claim w total_signed (fst (claim_attendance w s2)) of
                   Inl e \<Rightarrow> (exception_outcome w e, snd (claim_attendance w s2))
                 | Inr result \<Rightarrow> (result, snd (claim_attendance w s2))))"
  using assms by (simp add: perform_checkin_def split_beta split: sum.splits checked.splits)

lemma no_claim_before_check:
  assumes "authenticate w s = (ok, s1)" and "check_attendance w s1 = (check_data, s2)"
  shows "filter is_claim_request (issued_since s s2) = []"
proof -
  from authenticate_trace[OF assms(1)] obtain new
    where new: "session s1 = session s @ new" "\<forall>req \<in> set new. \<not> is_attendance req" by blast
  from check_attendance_session[of w s1] assms(2)
  have "session s2 = session s1 \<or> (\<exists>t g. session s2 = session s1 @ [check_request (snd (timestamp_now w s1)) t g])"
    by simp
  then show ?thesis
    using new by (auto simp: issued_since_def filter_empty_conv dest: claim_is_attendance)
qed

lemma last_resolved:
  assumes "ids \<noteq> []" and "resolve catalog (last ids) = Some r"
  shows "(case resolved_rewards catalog ids of [] \<Rightarrow> d | x # xs \<Rightarrow> last (x # xs)) = r"
proof -
  from assms(1) obtain pre where ids: "ids = pre @ [last ids]"
    by (metis append_butlast_last_id)
  have "resolved_rewards catalog (pre @ [last ids]) = resolved_rewards catalog pre @ [r]"
    using assms(2) by (induction pre) (simp_all add: resolved_rewards_def split: option.splits)
  with ids have "resolved_rewards catalog ids = resolved_rewards catalog pre @ [r]" by simp
  then have "resolved_rewards catalog ids \<noteq> []" and "last (resolved_rewards catalog ids) = r"
    by simp_all
  then show ?thesis by (cases "resolved_rewards catalog ids") simp_all
qed

text \<open>
  Claim C1. Authentication has succeeded, the check response has the success code 0 and
  reports that today's reward is claimed, and it holds an attendance snapshot (a calendar
  of day records and a catalog of resources). Then \<^verbatim>\<open>perform_checkin\<close> returns success,
  already signed, the message "Already signed in today", as total the number of calendar
  entries marked done, and as reward the last reward that the done entries resolve to in
  the catalog; in particular, when the most recent done entry resolves, the reward is
  the one it resolves to. The invocation ends in the state the check left: no claim
  request has been issued.
\<close>

theorem already_signed_today:
  assumes "authenticate w s = (True, s1)"
    and "check_attendance w s1 = (check_data, s2)"
    and "py_eq_int (field check_data ''code'') 0"
    and "has_claimed_today check_data"
    and "calendar_of check_data entries"
    and "catalog_of check_data catalog"
  shows "perform_checkin w s =
           (outcome True (PyStr ''Already signed in today'') True
              (case resolved_rewards catalog (done_award_ids entries) of
                 [] \<Rightarrow> PyNone | r # rs \<Rightarrow> last (r # rs))
              (int (length (filter marked_done entries))), s2) \<and>
         (\<forall>r. filter marked_done entries \<noteq> [] \<and>
              resolve catalog (field (last (filter marked_done entries)) ''awardId'') = Some r \<longrightarrow>
              field (fst (perform_checkin w s)) ''reward'' = r) \<and>
         filter is_claim_request (issued_since s s2) = []"
proof -
  have run: "perform_checkin w s =
           (outcome True (PyStr ''Already signed in today'') True
              (case resolved_rewards catalog (done_award_ids entries) of
                 [] \<Rightarrow> PyNone | r # rs \<Rightarrow> last (r # rs))
              (int (length (filter marked_done entries))), s2)"
    by (simp add: perform_checkin_run[OF assms(1,2)] interpret_check_claimed[OF assms(3-6)])
  have "field (fst (perform_checkin w s)) ''reward'' = r"
    if "filter marked_done entries \<noteq> []"
      and "resolve catalog (field (last (filter marked_done entries)) ''awardId'') = Some r" for r
  proof -
    from that have "done_award_ids entries \<noteq> []" "resolve catalog (last (done_award_ids entries)) = Some r"
      by (simp_all add: done_award_ids_def last_map)
    from last_resolved[OF this] show ?thesis
      by (simp add: run outcome_def field_def get_or_def)
  qed
  with run no_claim_before_check[OF assms(1,2)] show ?thesis by blast
qed

lemmas example_defs =
  example_env_def example_upstream_def is_oauth_grant_def is_cred_exchange_def is_refresh_def
  is_binding_lookup_def is_attendance_def OAUTH_URL_def BASE_URL_def API_BASE_URL_def
  PLATFORM_def VNAME_def ENDFIELD_GAME_ID_def APP_CODE_def

lemma example_short_authenticates:
  "fst (authenticate (example_env (example_upstream c k)) (EndfieldAdapter ''cred-value'' ''demo''))"
  by (simp add: authenticate_def finish_authentication_def get_sign_token_def get_player_binding_def
      EndfieldAdapter_def timestamp_now_def refresh_request_def binding_request_def signed_headers_def
      compute_sign_def status_ok_def nested_def issue_def Let_def py_str_def example_defs)

lemmas run_defs =
  authenticate_def finish_authentication_def get_sign_token_def get_player_binding_def
  get_oauth_code_def get_cred_def oauth_request_def cred_request_def
  check_attendance_def claim_attendance_def check_request_def claim_request_def role_header_def
  EndfieldAdapter_def timestamp_now_def refresh_request_def binding_request_def signed_headers_def
  compute_sign_def status_ok_def nested_def issue_def Let_def py_str_def

lemma example_short_check:
  "fst (check_attendance (example_env (example_upstream c k))
          (snd (authenticate (example_env (example_upstream c k)) (EndfieldAdapter ''cred-value'' ''demo'')))) = c"
  by (simp add: run_defs example_defs)

lemma example_short_claim:
  "fst (claim_attendance (example_env (example_upstream c k))
          (snd (check_attendance (example_env (example_upstream c k))
             (snd (authenticate (example_env (example_upstream c k)) (EndfieldAdapter ''cred-value'' ''demo'')))))) = k"
  by (simp add: run_defs example_defs)

lemma example_check_facts:
  "py_eq_int (field (example_check t) ''code'') 0"
  "has_claimed_today (example_check t) = t"
  "calendar_of (example_check t) example_calendar"
  "catalog_of (example_check t) example_catalog"
  by (simp_all add: example_check_def field_def get_or_def has_claimed_today_def calendar_of_def
      catalog_of_def example_calendar_def example_catalog_def day_record_def is_dict_def is_container_def)

theorem already_signed_today_witness:
  "fst (perform_checkin (example_env (example_upstream (example_check True) PyNone))
          (EndfieldAdapter ''cred-value'' ''demo'')) =
   outcome True (PyStr ''Already signed in today'') True
     (PyDict [(''name'', PyStr ''Orundum''), (''count'', PyInt 100), (''icon'', PyStr [])]) 2"
proof -
  let ?w = "example_env (example_upstream (example_check True) PyNone)"
  let ?s = "EndfieldAdapter ''cred-value'' ''demo''"
  have a: "authenticate ?w ?s = (True, snd (authenticate ?w ?s))"
    using example_short_authenticates[of "example_check True" PyNone] by (simp add: prod_eq_iff)
  have c: "check_attendance ?w (snd (authenticate ?w ?s)) =
             (example_check True, snd (check_attendance ?w (snd (authenticate ?w ?s))))"
    using example_short_check[of "example_check True" PyNone] by (simp add: prod_eq_iff)
  from already_signed_today[OF a c example_check_facts(1) _ example_check_facts(3,4)]
  show ?thesis
    by (simp add: example_check_facts(2) resolved_rewards_def done_award_ids_def resolve_def
        marked_done_def field_def get_or_def example_calendar_def example_catalog_def reward_entry_def)
qed

text \<open>
  Claim C2 as stated fails: a claim response with the success code 0 whose message says
  "already" is reported as a fresh sign-in, one day more than the baseline.
\<close>

theorem already_message_with_success_code:
  "says_already (example_claim 0 ''Already claimed'') \<and>
   fst (perform_checkin (example_env (example_upstream (example_check False) (example_claim 0 ''Already claimed'')))
          (EndfieldAdapter ''cred-value'' ''demo'')) =
   outcome True (PyStr ''Signed in successfully! Rewards: Orundum x100'') False
     (PyDict [(''name'', PyStr ''Orundum''), (''count'', PyInt 100), (''icon'', PyStr [])]) 3"
  by code_simp

text \<open>
  Claim C2, amended. The claim is attempted (authentication succeeded, the check has code 0,
  reports today unclaimed and holds a calendar of day records) and its response has a
  code other than 0 and either one of the codes 1001 and 10001 or a message that
  contains "already" in any case. Then the outcome is success, already signed, no
  reward, and the number of done calendar entries as total.
\<close>

theorem claim_already_done:
  assumes "authenticate w s = (True, s1)"
    and "check_attendance w s1 = (check_data, s2)"
    and "py_eq_int (field check_data ''code'') 0"
    and "\<not> has_claimed_today check_data"
    and "calendar_of check_data entries"
    and "claim_attendance w s2 = (claim_data, s3)"
    and "\<not> py_eq_int (field claim_data ''code'') 0"
    and "already_code (field claim_data ''code'') \<or> says_already claim_data"
  shows "perform_checkin w s =
           (outcome True (PyStr ''Already signed in today'') True PyNone
              (int (length (filter marked_done entries))), s3)"
  by (simp add: perform_checkin_run[OF assms(1,2)] interpret_check_unclaimed[OF assms(3-5)] assms(6)
      interpret_claim_already[OF assms(7,8)])

lemma example_run:
  fixes c k
  defines "w \<equiv> example_env (example_upstream c k)"
  defines "s \<equiv> EndfieldAdapter ''cred-value'' ''demo''"
  shows "authenticate w s = (True, snd (authenticate w s))"
    and "check_attendance w (snd (authenticate w s)) = (c, snd (check_attendance w (snd (authenticate w s))))"
    and "claim_attendance w (snd (check_attendance w (snd (authenticate w s)))) =
           (k, snd (claim_attendance w (snd (check_attendance w (snd (authenticate w s))))))"
  unfolding w_def s_def
  using example_short_authenticates[of c k] example_short_check[of c k] example_short_claim[of c k]
  by (simp_all add: prod_eq_iff)

theorem claim_already_done_witness:
  "fst (perform_checkin (example_env (example_upstream (example_check False) (example_claim 1001 ''Signed'')))
          (EndfieldAdapter ''cred-value'' ''demo'')) =
   outcome True (PyStr ''Already signed in today'') True PyNone 2"
proof -
  have "\<not> py_eq_int (field (example_claim 1001 ''Signed'') ''code'') 0"
    and "already_code (field (example_claim 1001 ''Signed'') ''code'') \<or> says_already (example_claim 1001 ''Signed'')"
    by (simp_all add: example_claim_def field_def get_or_def already_code_def)
  moreover have "\<not> has_claimed_today (example_check False)"
    by (simp add: example_check_facts)
  ultimately show ?thesis
    using claim_already_done[OF example_run(1,2) example_check_facts(1) _ example_check_facts(3) example_run(3)]
    by (simp add: marked_done_def field_def get_or_def example_calendar_def)
qed

text \<open>
  Claim C4. The claim is attempted and its response has the success code 0, a list of
  awards (objects carrying an id, or ids) and a catalog of resources. Then the outcome is
  success, not already signed, one more than the number of done calendar entries as
  total, the first award that resolves in the claim response's own catalog as reward
  (\<^verbatim>\<open>None\<close> when none resolves), and the message "Signed in successfully! Rewards: "
  followed by the summary: "Unknown" when no award resolves, else the resolved rewards
  as "name xcount", separated by ", ".
\<close>

theorem claim_succeeded:
  assumes "authenticate w s = (True, s1)"
    and "check_attendance w s1 = (check_data, s2)"
    and "py_eq_int (field check_data ''code'') 0"
    and "\<not> has_claimed_today check_data"
    and "calendar_of check_data entries"
    and "claim_attendance w s2 = (claim_data, s3)"
    and "py_eq_int (field claim_data ''code'') 0"
    and "awards_of claim_data awards"
    and "catalog_of claim_data catalog"
  shows "perform_checkin w s =
           (outcome True
              (PyStr (''Signed in successfully! Rewards: '' @
                      reward_summary w (resolved_rewards catalog (map award_id_of awards))))
              False
              (case resolved_rewards catalog (map award_id_of awards) of [] \<Rightarrow> PyNone | r # rs \<Rightarrow> r)
              (int (length (filter marked_done entries)) + 1), s3)"
  by (simp add: perform_checkin_run[OF assms(1,2)] interpret_check_unclaimed[OF assms(3-5)] assms(6)
      interpret_claim_success[OF assms(7-9)])

lemma example_claim_facts:
  "field (example_claim c m) ''code'' = PyInt c"
  "message_text (example_claim c m) = Some m"
  "awards_of (example_claim c m) [PyDict [(''id'', PyStr ''a2'')]]"
  "catalog_of (example_claim c m) example_catalog"
  by (simp_all add: example_claim_def field_def get_or_def message_text_def awards_of_def catalog_of_def
      example_catalog_def award_shape_def is_dict_def is_container_def)

theorem claim_succeeded_witness:
  "fst (perform_checkin (example_env (example_upstream (example_check False) (example_claim 0 ''OK'')))
          (EndfieldAdapter ''cred-value'' ''demo'')) =
   outcome True (PyStr ''Signed in successfully! Rewards: Orundum x100'') False
     (PyDict [(''name'', PyStr ''Orundum''), (''count'', PyInt 100), (''icon'', PyStr [])]) 3"
proof -
  have "\<not> has_claimed_today (example_check False)"
    and "py_eq_int (field (example_claim 0 ''OK'') ''code'') 0"
    by (simp_all add: example_check_facts example_claim_facts)
  then show ?thesis
    using claim_succeeded[OF example_run(1,2) example_check_facts(1) _ example_check_facts(3) example_run(3)
        _ example_claim_facts(3,4), of False 0 "''OK''"]
    apply (simp add: marked_done_def field_def get_or_def example_calendar_def example_catalog_def
        resolved_rewards_def resolve_def award_id_of_def is_dict_def reward_entry_def reward_summary_def
        py_str_def)
    apply code_simp
    done
qed

text \<open>
  Claim C5. The claim is attempted and its response is a hard failure: its code is not 0,
  it is not an already-claimed case (neither code 1001 or 10001 nor a message containing
  "already"), and its message is text. If the code is 10002 the outcome is a failure with
  the renewal message and total 0; otherwise it is a failure whose message carries the
  code and the upstream message, with the number of done calendar entries as total.
\<close>

theorem claim_hard_failure:
  assumes "authenticate w s = (True, s1)"
    and "check_attendance w s1 = (check_data, s2)"
    and "py_eq_int (field check_data ''code'') 0"
    and "\<not> has_claimed_today check_data"
    and "calendar_of check_data entries"
    and "claim_attendance w s2 = (claim_data, s3)"
    and "\<not> py_eq_int (field claim_data ''code'') 0"
    and "\<not> already_code (field claim_data ''code'')"
    and "\<not> says_already claim_data"
    and "message_text claim_data = Some m"
  shows "perform_checkin w s =
           (if py_eq_int (field claim_data ''code'') 10002
            then outcome False (PyStr ''Account token expired. Please update your token.'') False PyNone 0
            else outcome False
                   (PyStr (''API Error (code '' @ py_str w (field claim_data ''code'') @ ''): '' @ m))
                   False PyNone (int (length (filter marked_done entries))), s3)"
  by (simp add: perform_checkin_run[OF assms(1,2)] interpret_check_unclaimed[OF assms(3-5)] assms(6)
      interpret_claim_failure[OF assms(7-10)])

theorem claim_hard_failure_witness:
  "fst (perform_checkin (example_env (example_upstream (example_check False) (example_claim 10002 ''Token expired'')))
          (EndfieldAdapter ''cred-value'' ''demo'')) =
     outcome False (PyStr ''Account token expired. Please update your token.'') False PyNone 0 \<and>
   fst (perform_checkin (example_env (example_upstream (example_check False) (example_claim 500 ''Server error'')))
          (EndfieldAdapter ''cred-value'' ''demo'')) =
     outcome False (PyStr ''API Error (code 500): Server error'') False PyNone 2"
proof -
  have today: "\<not> has_claimed_today (example_check False)"
    by (simp add: example_check_facts)
  have expired: "\<not> py_eq_int (field (example_claim 10002 ''Token expired'') ''code'') 0"
      "\<not> already_code (field (example_claim 10002 ''Token expired'') ''code'')"
      "\<not> says_already (example_claim 10002 ''Token expired'')"
    and other: "\<not> py_eq_int (field (example_claim 500 ''Server error'') ''code'') 0"
      "\<not> already_code (field (example_claim 500 ''Server error'') ''code'')"
      "\<not> says_already (example_claim 500 ''Server error'')"
    by (simp_all add: example_claim_facts already_code_def says_already_def) code_simp+
  have "py_str w (PyInt 500) = ''500''" for w
    unfolding py_str_def by code_simp
  moreover have "length (filter marked_done example_calendar) = 2"
    by (simp add: marked_done_def field_def get_or_def example_calendar_def)
  ultimately show ?thesis
    using claim_hard_failure[OF example_run(1,2) example_check_facts(1) today example_check_facts(3)
        example_run(3) expired example_claim_facts(2)]
      claim_hard_failure[OF example_run(1,2) example_check_facts(1) today example_check_facts(3)
        example_run(3) other example_claim_facts(2)]
    by (simp add: example_claim_facts)
qed

section \<open>The shape of every outcome\<close>

lemma consistent_outcome_iff [simp]: "consistent_outcome (outcome a m b r t) = (b \<longrightarrow> a)"
  by (auto simp: consistent_outcome_def outcome_def)

lemma interpret_check_outcome:
  "interpret_check check_data = Inr (Returned result) \<Longrightarrow> consistent_outcome result"
  by (auto simp: interpret_check_def bind_exc_def split: sum.splits if_splits)

lemma interpret_claim_outcome:
  "interpret_claim w n claim_data = Inr result \<Longrightarrow> consistent_outcome result"
  by (auto simp: interpret_claim_def bind_exc_def split: sum.splits if_splits)

lemma perform_checkin_outcome: "consistent_outcome (fst (perform_checkin w s))"
  by (auto simp: perform_checkin_def split_beta exception_outcome_def
      split: sum.splits checked.splits dest: interpret_check_outcome interpret_claim_outcome)

lemma Game_sign_outcome: "consistent_outcome (Game_sign w token_arg)"
proof (cases token_arg)
  case (PyStr token)
  from perform_checkin_outcome[of w "EndfieldAdapter token ''Unknown''"]
  obtain success message already reward total
    where r: "fst (perform_checkin w (EndfieldAdapter token ''Unknown'')) = outcome success message already reward total"
      and "already \<longrightarrow> success"
    unfolding consistent_outcome_def by blast
  have "Game_sign w token_arg = outcome success message already reward total"
    by (simp add: Game_sign_def PyStr r) (simp add: outcome_def)
  with \<open>already \<longrightarrow> success\<close> show ?thesis by simp
qed (simp_all add: Game_sign_def exception_outcome_def)

text \<open>
  Claim C10. Whatever the environment and the adapter, an outcome of
  \<^verbatim>\<open>perform_checkin\<close> that reports already signed reports success; so does the dict
  \<^verbatim>\<open>Game.sign\<close> returns, for any token.
\<close>

theorem already_signed_implies_success:
  "(truthy (field (fst (perform_checkin w s)) ''already_signed'') \<longrightarrow>
      truthy (field (fst (perform_checkin w s)) ''success'')) \<and>
   (truthy (field (Game_sign w token_arg) ''already_signed'') \<longrightarrow>
      truthy (field (Game_sign w token_arg) ''success''))"
  using perform_checkin_outcome[of w s] Game_sign_outcome[of w token_arg]
  by (auto simp: consistent_outcome_def outcome_def field_def get_or_def)

theorem already_signed_implies_success_witness:
  "truthy (field (fst (perform_checkin (example_env (example_upstream (example_check True) PyNone))
                        (EndfieldAdapter ''cred-value'' ''demo''))) ''success'') \<and>
   truthy (field (Game_sign (example_env (example_upstream (example_check True) PyNone))
                    (PyStr ''cred-value'')) ''success'')"
proof -
  let ?w = "example_env (example_upstream (example_check True) PyNone)"
  have "truthy (field (fst (perform_checkin ?w (EndfieldAdapter ''cred-value'' ''demo''))) ''already_signed'')"
    by code_simp
  moreover have "truthy (field (Game_sign ?w (PyStr ''cred-value'')) ''already_signed'')"
    by code_simp
  ultimately show ?thesis
    using already_signed_implies_success[of ?w "EndfieldAdapter ''cred-value'' ''demo''" "PyStr ''cred-value''"]
    by blast
qed

section \<open>Transport errors\<close>

lemma check_attendance_fault:
  assumes "issued_since s (snd (check_attendance w s)) = [req]" and "http w req = Inl e"
  shows "fst (check_attendance w s) = error_payload w e"
  using assms
  by (auto simp: check_attendance_def Let_def split_beta issued_since_def split: sum.splits)

lemma claim_attendance_fault:
  assumes "issued_since s (snd (claim_attendance w s)) = [req]" and "http w req = Inl e"
  shows "fst (claim_attendance w s) = error_payload w e"
  using assms
  by (auto simp: claim_attendance_def Let_def split_beta issued_since_def split: sum.splits)

lemma check_attendance_result:
  "(\<exists>e. fst (check_attendance w s) = error_payload w e) \<or>
   (\<exists>req. issued_since s (snd (check_attendance w s)) = [req] \<and>
      http w req = Inr (fst (check_attendance w s)))"
  by (auto simp: check_attendance_def Let_def split_beta issued_since_def split: sum.splits)

lemma claim_attendance_result:
  "(\<exists>e. fst (claim_attendance w s) = error_payload w e) \<or>
   (\<exists>req. issued_since s (snd (claim_attendance w s)) = [req] \<and>
      http w req = Inr (fst (claim_attendance w s)))"
  by (auto simp: claim_attendance_def Let_def split_beta issued_since_def split: sum.splits)

text \<open>
  Claim C9. \<^verbatim>\<open>check_attendance\<close> and \<^verbatim>\<open>claim_attendance\<close> always return a payload: the
  decoded reply to the one request they issued, or else the synthetic payload
  \<^verbatim>\<open>{"code": -1, "message": str(e)}\<close>; when the request raises (a transport or decoding
  error) it is the synthetic payload, whose code -1 is not the success code. And
  \<^verbatim>\<open>perform_checkin\<close> returns, for every environment and adapter, a dict with the five
  fields of an outcome.
\<close>

theorem failures_become_outcomes:
  "((\<exists>e. fst (check_attendance w s) = error_payload w e) \<or>
    (\<exists>req. issued_since s (snd (check_attendance w s)) = [req] \<and>
       http w req = Inr (fst (check_attendance w s)))) \<and>
   ((\<exists>e. fst (claim_attendance w s) = error_payload w e) \<or>
    (\<exists>req. issued_since s (snd (claim_attendance w s)) = [req] \<and>
       http w req = Inr (fst (claim_attendance w s)))) \<and>
   (\<forall>req e. issued_since s (snd (check_attendance w s)) = [req] \<and> http w req = Inl e \<longrightarrow>
        fst (check_attendance w s) = error_payload w e) \<and>
   (\<forall>req e. issued_since s (snd (claim_attendance w s)) = [req] \<and> http w req = Inl e \<longrightarrow>
        fst (claim_attendance w s) = error_payload w e) \<and>
   field (error_payload w e') ''code'' = PyInt (- 1) \<and>
   \<not> py_eq_int (field (error_payload w e') ''code'') 0 \<and>
   (\<exists>success message already reward total.
      fst (perform_checkin w s) = outcome success message already reward total)"
proof -
  have "\<exists>success message already reward total.
          fst (perform_checkin w s) = outcome success message already reward total"
    using perform_checkin_outcome[of w s] unfolding consistent_outcome_def by blast
  moreover have "field (error_payload w e') ''code'' = PyInt (- 1)"
    by (simp add: error_payload_def field_def get_or_def)
  moreover note check_attendance_result[of w s] claim_attendance_result[of w s]
  ultimately show ?thesis
    using check_attendance_fault[of s w] claim_attendance_fault[of s w] by simp
qed

theorem failures_become_outcomes_witness:
  "fst (check_attendance (example_env offline)
          ((EndfieldAdapter ''cred-value'' ''demo'')\<lparr>sign_token := PyStr ''signing-token''\<rparr>)) =
     PyDict [(''code'', PyInt (- 1)), (''message'', PyStr ''connection refused'')] \<and>
   fst (claim_attendance (example_env offline)
          ((EndfieldAdapter ''cred-value'' ''demo'')\<lparr>sign_token := PyStr ''signing-token''\<rparr>)) =
     PyDict [(''code'', PyInt (- 1)), (''message'', PyStr ''connection refused'')]"
proof -
  let ?w = "example_env offline"
  let ?s = "(EndfieldAdapter ''cred-value'' ''demo'')\<lparr>sign_token := PyStr ''signing-token''\<rparr>"
  let ?e = "RequestException ''connection refused''"
  have check: "issued_since ?s (snd (check_attendance ?w ?s)) = [hd (issued_since ?s (snd (check_attendance ?w ?s)))]"
    and claim: "issued_since ?s (snd (claim_attendance ?w ?s)) = [hd (issued_since ?s (snd (claim_attendance ?w ?s)))]"
    by (simp_all add: issued_since_def run_defs example_env_def)
  have "http ?w req = Inl ?e" for req
    by (simp add: example_env_def offline_def)
  with check claim failures_become_outcomes[where s = ?s and w = ?w]
  have "fst (check_attendance ?w ?s) = error_payload ?w ?e"
    and "fst (claim_attendance ?w ?s) = error_payload ?w ?e"
    by blast+
  then show ?thesis
    by (simp add: error_payload_def example_env_def)
qed

section \<open>Authentication failures\<close>

lemma perform_checkin_unauthenticated:
  "\<not> fst (authenticate w s) \<Longrightarrow>
   fst (perform_checkin w s) = outcome False (PyStr ''Authentication failed'') False PyNone 0"
  by (simp add: perform_checkin_def split_beta)

lemma perform_checkin_state:
  assumes "authenticate w s = (True, s1)"
  shows "snd (perform_checkin w s) = snd (check_attendance w s1) \<or>
         snd (perform_checkin w s) = snd (claim_attendance w (snd (check_attendance w s1)))"
  using assms by (auto simp: perform_checkin_def split_beta split: sum.splits checked.splits)

lemma check_attendance_trace:
  "\<exists>rest. session (snd (check_attendance w s)) = session s @ rest \<and>
     (\<forall>r \<in> set rest. \<exists>s' t g. game_role s' = game_role s \<and> r = check_request s' t g)"
  using check_attendance_session[of w s]
proof
  assume "session (snd (check_attendance w s)) = session s"
  then show ?thesis by simp
next
  assume "\<exists>t g. session (snd (check_attendance w s)) = session s @ [check_request (snd (timestamp_now w s)) t g]"
  then obtain t g
    where "session (snd (check_attendance w s)) = session s @ [check_request (snd (timestamp_now w s)) t g]"
    by blast
  moreover have "\<exists>s' t' g'. game_role s' = game_role s \<and>
      check_request (snd (timestamp_now w s)) t g = check_request s' t' g'"
    using timestamp_now_fields(4)[of w s] by blast
  ultimately show ?thesis by simp
qed

lemma claim_attendance_trace:
  "\<exists>rest. session (snd (claim_attendance w s)) = session s @ rest \<and>
     (\<forall>r \<in> set rest. \<exists>s' t g. game_role s' = game_role s \<and> r = claim_request s' t g)"
  using claim_attendance_session[of w s]
proof
  assume "session (snd (claim_attendance w s)) = session s"
  then show ?thesis by simp
next
  assume "\<exists>t g. session (snd (claim_attendance w s)) = session s @ [claim_request (snd (timestamp_now w s)) t g]"
  then obtain t g
    where "session (snd (claim_attendance w s)) = session s @ [claim_request (snd (timestamp_now w s)) t g]"
    by blast
  moreover have "\<exists>s' t' g'. game_role s' = game_role s \<and>
      claim_request (snd (timestamp_now w s)) t g = claim_request s' t' g'"
    using timestamp_now_fields(4)[of w s] by blast
  ultimately show ?thesis by simp
qed

lemma perform_checkin_trace:
  assumes "authenticate w s = (True, s1)"
  shows "\<exists>rest. session (snd (perform_checkin w s)) = session s1 @ rest \<and>
           (\<forall>r \<in> set rest. \<exists>s' t g. game_role s' = game_role s1 \<and>
                  (r = check_request s' t g \<or> r = claim_request s' t g))"
proof -
  let ?s2 = "snd (check_attendance w s1)"
  let ?s3 = "snd (claim_attendance w ?s2)"
  from check_attendance_trace[of w s1] obtain r1 where r1: "session ?s2 = session s1 @ r1"
    "\<forall>r \<in> set r1. \<exists>s' t g. game_role s' = game_role s1 \<and> r = check_request s' t g" by blast
  from claim_attendance_trace[of w ?s2] obtain r2 where r2: "session ?s3 = session ?s2 @ r2"
    "\<forall>r \<in> set r2. \<exists>s' t g. game_role s' = game_role s1 \<and> r = claim_request s' t g" by auto
  from perform_checkin_state[OF assms] show ?thesis
  proof
    assume "snd (perform_checkin w s) = ?s2"
    with r1 have "session (snd (perform_checkin w s)) = session s1 @ r1" by simp
    moreover from r1(2) have "\<forall>r \<in> set r1. \<exists>s' t g. game_role s' = game_role s1 \<and>
                  (r = check_request s' t g \<or> r = claim_request s' t g)" by blast
    ultimately show ?thesis by blast
  next
    assume "snd (perform_checkin w s) = ?s3"
    with r1 r2 have "session (snd (perform_checkin w s)) = session s1 @ (r1 @ r2)" by simp
    moreover from r1(2) r2(2) have "\<forall>r \<in> set (r1 @ r2). \<exists>s' t g. game_role s' = game_role s1 \<and>
                  (r = check_request s' t g \<or> r = claim_request s' t g)"
      unfolding set_append by blast
    ultimately show ?thesis by blast
  qed
qed

text \<open>
  Claim C6. If any request that the invocation issues to one of the three endpoints of
  the credential exchange (OAuth grant, code-to-credential exchange, token refresh) is
  not answered with a success status, \<^verbatim>\<open>perform_checkin\<close> returns exactly the
  "Authentication failed" outcome: the same dict whichever hop it was.
\<close>

theorem exchange_failure_outcome:
  assumes "req \<in> set (issued_since s (snd (perform_checkin w s)))"
    and "is_exchange_step req"
    and "\<not> success_status w req"
  shows "fst (perform_checkin w s) = outcome False (PyStr ''Authentication failed'') False PyNone 0"
proof (cases "fst (authenticate w s)")
  case False
  then show ?thesis by (rule perform_checkin_unauthenticated)
next
  case True
  then have a: "authenticate w s = (True, snd (authenticate w s))"
    by (simp add: prod_eq_iff)
  from authenticate_trace[OF a] obtain new
    where new: "session (snd (authenticate w s)) = session s @ new"
      "\<forall>r \<in> set new. is_exchange_step r \<longrightarrow> success_status w r" by blast
  from perform_checkin_trace[OF a] obtain rest
    where rest: "session (snd (perform_checkin w s)) = session (snd (authenticate w s)) @ rest"
      "\<forall>r \<in> set rest. is_attendance r" by fastforce
  from new(1) rest(1) have "issued_since s (snd (perform_checkin w s)) = new @ rest"
    by (simp add: issued_since_def)
  with assms(1) have "req \<in> set new \<or> req \<in> set rest" by simp
  with new(2) rest(2) assms(2,3) show ?thesis by auto
qed

theorem exchange_failure_outcome_witness:
  "fst (perform_checkin (example_env refresh_rejected) (EndfieldAdapter ''eyJ-account-token'' ''demo'')) =
   outcome False (PyStr ''Authentication failed'') False PyNone 0"
proof -
  let ?w = "example_env refresh_rejected"
  let ?s = "EndfieldAdapter ''eyJ-account-token'' ''demo''"
  let ?issued = "issued_since ?s (snd (perform_checkin ?w ?s))"
  have "?issued \<noteq> [] \<and> is_exchange_step (last ?issued) \<and> is_refresh (last ?issued) \<and>
        \<not> success_status ?w (last ?issued)"
    by code_simp
  then show ?thesis
    using exchange_failure_outcome[of "last ?issued" ?s ?w] by simp
qed

section \<open>Which tokens go through the OAuth grant\<close>

lemma finish_authentication_cred [simp]: "cred (snd (finish_authentication w s)) = cred s"
  by (simp add: finish_authentication_unfold Let_def)

lemma refresh_request_facts [simp]:
  "is_refresh (refresh_request s t)" "\<not> is_oauth_grant (refresh_request s t)"
  "\<not> is_binding_lookup (refresh_request s t)"
  "map_of (headers (refresh_request s t)) ''cred'' = Some (cred s)"
  by (simp_all add: is_refresh_def is_oauth_grant_def is_binding_lookup_def refresh_request_def
      OAUTH_URL_def BASE_URL_def API_BASE_URL_def)

lemma binding_request_facts [simp]:
  "is_binding_lookup (binding_request s t g)" "\<not> is_oauth_grant (binding_request s t g)"
  "\<not> is_refresh (binding_request s t g)"
  "map_of (headers (binding_request s t g)) ''cred'' = Some (cred s)"
  by (simp_all add: is_refresh_def is_oauth_grant_def is_binding_lookup_def binding_request_def
      signed_headers_def OAUTH_URL_def BASE_URL_def API_BASE_URL_def)

lemma get_player_binding_requests:
  "session (snd (get_player_binding w s)) = session s \<or>
   (\<exists>t g. session (snd (get_player_binding w s)) = session s @ [binding_request (snd (timestamp_now w s)) t g])"
  by (auto simp: get_player_binding_def Let_def split_beta split: sum.splits)

lemma finish_authentication_requests:
  "\<exists>new. session (snd (finish_authentication w s)) = session s @ new \<and>
     (\<forall>req \<in> set new. \<not> is_oauth_grant req \<and> map_of (headers req) ''cred'' = Some (cred s))"
proof (cases "truthy (fst (get_sign_token w s))")
  case False
  then show ?thesis by (simp add: finish_authentication_unfold Let_def)
next
  case True
  let ?r = "refresh_request (snd (timestamp_now w s)) (fst (timestamp_now w s))"
  let ?s1 = "(snd (get_sign_token w s))\<lparr>sign_token := fst (get_sign_token w s)\<rparr>"
  have s': "session (snd (finish_authentication w s)) = session (snd (get_player_binding w ?s1))"
    using True by (simp add: finish_authentication_unfold Let_def)
  from get_player_binding_requests[of w ?s1] show ?thesis
  proof
    assume "session (snd (get_player_binding w ?s1)) = session ?s1"
    then have "session (snd (finish_authentication w s)) = session s @ [?r]" by (simp add: s')
    then show ?thesis by simp
  next
    assume "\<exists>t g. session (snd (get_player_binding w ?s1)) =
              session ?s1 @ [binding_request (snd (timestamp_now w ?s1)) t g]"
    then obtain t g where "session (snd (finish_authentication w s)) =
        session s @ [?r, binding_request (snd (timestamp_now w ?s1)) t g]"
      by (auto simp: s')
    then show ?thesis by simp
  qed
qed

text \<open>
  Claim C7 as stated fails for the empty token: it is short-form, the constructor stores
  it as the cred, and \<^verbatim>\<open>authenticate\<close>, which tests \<^verbatim>\<open>not self.cred\<close>, issues the
  OAuth grant all the same.
\<close>

theorem empty_token_requests_grant:
  "short_form [] \<and>
   cred (EndfieldAdapter [] ''demo'') = PyStr [] \<and>
   list_ex is_oauth_grant (session (snd (authenticate (example_env offline) (EndfieldAdapter [] ''demo''))))"
  by code_simp

text \<open>
  Claim C7, amended. For every non-empty short-form token, authentication issues no
  OAuth grant, keeps the token itself as the cred, and every request it issues carries
  the token as its \<^verbatim>\<open>cred\<close> header. For every token that is not short-form, the first
  request of authentication is the OAuth grant for that token.
\<close>

theorem token_form_decides_grant:
  "(short_form token \<and> token \<noteq> [] \<longrightarrow>
      filter is_oauth_grant (session (snd (authenticate w (EndfieldAdapter token name)))) = [] \<and>
      cred (snd (authenticate w (EndfieldAdapter token name))) = PyStr token \<and>
      (\<forall>req \<in> set (session (snd (authenticate w (EndfieldAdapter token name)))).
          map_of (headers req) ''cred'' = Some (PyStr token))) \<and>
   (\<not> short_form token \<longrightarrow>
      (\<exists>rest. session (snd (authenticate w (EndfieldAdapter token name))) =
                oauth_request (EndfieldAdapter token name) # rest) \<and>
      payload (oauth_request (EndfieldAdapter token name)) =
        Some (PyDict [(''token'', PyStr token), (''appCode'', PyStr APP_CODE), (''type'', PyInt 0)]))"
proof (intro conjI impI)
  let ?s = "EndfieldAdapter token name"
  assume short: "short_form token \<and> token \<noteq> []"
  then have c: "cred ?s = PyStr token" and e: "session ?s = []"
    by (simp_all add: EndfieldAdapter_def short_form_def)
  with short have a: "authenticate w ?s = finish_authentication w ?s"
    by (simp add: authenticate_unfold)
  from finish_authentication_requests[of w ?s] obtain new
    where new: "session (snd (finish_authentication w ?s)) = new"
      "\<forall>req \<in> set new. \<not> is_oauth_grant req \<and> map_of (headers req) ''cred'' = Some (PyStr token)"
    by (auto simp: c e)
  show "filter is_oauth_grant (session (snd (authenticate w ?s))) = []"
    using new by (simp add: a filter_empty_conv)
  show "cred (snd (authenticate w ?s)) = PyStr token"
    by (simp add: a c)
  show "\<forall>req \<in> set (session (snd (authenticate w ?s))). map_of (headers req) ''cred'' = Some (PyStr token)"
    using new by (simp add: a)
next
  let ?s = "EndfieldAdapter token name"
  assume long: "\<not> short_form token"
  then have c: "cred ?s = PyNone" and e: "session ?s = []"
    by (auto simp: EndfieldAdapter_def short_form_def)
  let ?g = "get_oauth_code w ?s"
  let ?c = "get_cred w (snd ?g) (fst ?g)"
  from finish_authentication_requests[of w "(snd ?c)\<lparr>cred := fst ?c\<rparr>"] obtain new
    where "session (snd (finish_authentication w ((snd ?c)\<lparr>cred := fst ?c\<rparr>))) =
             [oauth_request ?s, cred_request (fst ?g)] @ new"
    by (auto simp: e)
  then show "\<exists>rest. session (snd (authenticate w ?s)) = oauth_request ?s # rest"
    by (simp add: authenticate_unfold c Let_def e)
  show "payload (oauth_request ?s) =
        Some (PyDict [(''token'', PyStr token), (''appCode'', PyStr APP_CODE), (''type'', PyInt 0)])"
    by (simp add: oauth_request_def EndfieldAdapter_def)
qed

theorem token_form_decides_grant_witness:
  "filter is_oauth_grant (session (snd (authenticate (example_env (example_upstream PyNone PyNone))
                                          (EndfieldAdapter ''cred-value'' ''demo'')))) = [] \<and>
   cred (snd (authenticate (example_env (example_upstream PyNone PyNone))
               (EndfieldAdapter ''cred-value'' ''demo''))) = PyStr ''cred-value'' \<and>
   is_oauth_grant (hd (session (snd (authenticate (example_env (example_upstream PyNone PyNone))
                                      (EndfieldAdapter ''eyJ-account-token'' ''demo'')))))"
proof -
  have "short_form ''cred-value''" and "\<not> short_form ''eyJ-account-token''"
    by (simp_all add: short_form_def)
  moreover have "is_oauth_grant (oauth_request s)" for s
    by (simp add: is_oauth_grant_def oauth_request_def)
  ultimately show ?thesis
    using token_form_decides_grant[of "''cred-value''" "example_env (example_upstream PyNone PyNone)" "''demo''"]
      token_form_decides_grant[of "''eyJ-account-token''" "example_env (example_upstream PyNone PyNone)" "''demo''"]
    by auto
qed

section \<open>Authentication without a game role\<close>

lemma field_int_dict: "py_eq_int (field data f) k \<Longrightarrow> is_dict data"
  by (cases data) (simp_all add: field_def get_or_def is_dict_def)

lemma field_str_dict: "field data f = PyStr t \<Longrightarrow> is_dict data"
  by (cases data) (simp_all add: field_def get_or_def is_dict_def)

lemma status_ok_token:
  assumes "py_eq_int (field data f) 0" and "field (field data ''data'') k = PyStr t" and "t \<noteq> []"
  shows "status_ok data f k = Inr True" and "nested data k = Inr (PyStr t)"
proof -
  from assms(1) obtain kvs where d: "data = PyDict kvs"
    by (auto dest!: field_int_dict elim: is_dictE)
  from assms(2) obtain ws where i: "field data ''data'' = PyDict ws"
    by (auto dest!: field_str_dict elim: is_dictE)
  from i d have m: "map_of kvs ''data'' = Some (PyDict ws)"
    by (simp add: field_def get_or_def split: option.splits)
  from assms(2) i have t: "map_of ws k = Some (PyStr t)"
    by (simp add: field_def get_or_def split: option.splits)
  show "status_ok data f k = Inr True"
    using assms(1,3) by (simp add: status_ok_def d m t field_def get_or_def)
  show "nested data k = Inr (PyStr t)"
    by (simp add: nested_def d m t)
qed

lemma get_sign_token_succeeds:
  assumes "refresh_succeeds (http w (refresh_request (snd (timestamp_now w s)) (fst (timestamp_now w s))))"
  shows "truthy (fst (get_sign_token w s))"
proof -
  let ?r = "refresh_request (snd (timestamp_now w s)) (fst (timestamp_now w s))"
  from assms obtain data t where r: "http w ?r = Inr data" and c: "py_eq_int (field data ''code'') 0"
    and t: "field (field data ''data'') ''token'' = PyStr t" "t \<noteq> []"
    by (auto simp: refresh_succeeds_def split: sum.splits pyval.splits)
  show ?thesis
    using t(2) by (simp add: get_sign_token_def Let_def split_beta r status_ok_token[OF c t])
qed

lemma find_role_not_dicts:
  "list_all (\<lambda>a. \<not> is_dict a) apps \<Longrightarrow> except_None (find_role w apps) = PyNone"
  by (cases apps; cases "hd apps") (simp_all add: is_dict_def)

lemma find_role_no_endfield:
  "list_all (\<lambda>app. \<not> py_eq_str (field app ''appCode'') ''endfield'') apps \<Longrightarrow>
   except_None (find_role w apps) = PyNone"
proof (induction apps)
  case Nil
  then show ?case by simp
next
  case (Cons app apps)
  show ?case
  proof (cases "is_dict app")
    case False
    then show ?thesis by (cases app) (simp_all add: is_dict_def)
  next
    case True
    with Cons show ?thesis by (simp add: py_get_field)
  qed
qed

lemma nested_field: "nested data k = Inr v \<Longrightarrow> v = field (field data ''data'') k"
  by (cases data)
    (auto simp: nested_def field_def get_or_def bind_exc_def
      split: sum.splits option.splits pyval.splits elim!: py_getitem.elims)

text \<open>The role the binding lookup extracts from a reply without an Endfield entry.\<close>

lemma binding_reply_no_role:
  assumes "no_endfield_binding reply"
  shows "except_None
           (bind_exc reply (\<lambda>data.
            bind_exc (status_ok data ''code'' ''list'') (\<lambda>ok.
              if ok then bind_exc (nested data ''list'') (\<lambda>apps. bind_exc (py_iter apps) (find_role w))
              else Inr PyNone))) = PyNone"
proof (cases reply)
  case (Inl e)
  then show ?thesis by simp
next
  case (Inr data)
  show ?thesis
  proof (cases "status_ok data ''code'' ''list''")
    case (Inl e)
    then show ?thesis by (simp add: Inr)
  next
    case ok: (Inr b)
    show ?thesis
    proof (cases b)
      case False
      then show ?thesis by (simp add: Inr ok)
    next
      case True
      with ok have c: "py_eq_int (field data ''code'') 0" by (simp add: status_ok_success)
      show ?thesis
      proof (cases "nested data ''list''")
        case (Inl e)
        then show ?thesis by (simp add: Inr ok True)
      next
        case n: (Inr apps)
        then have apps: "apps = field (field data ''data'') ''list''" by (rule nested_field)
        have "except_None (bind_exc (py_iter apps) (find_role w)) = PyNone"
        proof (cases apps)
          case (PyList xs)
          with apps have "field (field data ''data'') ''list'' = PyList xs" by simp
          with assms c have "list_all (\<lambda>app. \<not> py_eq_str (field app ''appCode'') ''endfield'') xs"
            by (simp add: no_endfield_binding_def Inr)
          then show ?thesis by (simp add: PyList find_role_no_endfield)
        next
          case (PyDict kvs)
          have "list_all (\<lambda>a. \<not> is_dict a) (map (\<lambda>kv. PyStr (fst kv)) kvs)"
            by (simp add: list_all_iff is_dict_def)
          then show ?thesis by (simp add: PyDict find_role_not_dicts)
        next
          case (PyStr str)
          have "list_all (\<lambda>a. \<not> is_dict a) (map (\<lambda>c. PyStr [c]) str)"
            by (simp add: list_all_iff is_dict_def)
          then show ?thesis by (simp add: PyStr find_role_not_dicts)
        qed simp_all
        then show ?thesis by (simp add: Inr ok True n)
      qed
    qed
  qed
qed

lemma get_player_binding_no_role:
  assumes "\<forall>req \<in> set (issued_since s (snd (get_player_binding w s))).
             is_binding_lookup req \<longrightarrow> no_endfield_binding (http w req)"
  shows "fst (get_player_binding w s) = PyNone"
proof (cases "compute_sign w (snd (timestamp_now w s)) ''/api/v1/game/player/binding'' [] (fst (timestamp_now w s))")
  case (Inl e)
  then show ?thesis by (simp add: get_player_binding_def Let_def split_beta)
next
  case (Inr g)
  let ?r = "binding_request (snd (timestamp_now w s)) (fst (timestamp_now w s)) g"
  have "issued_since s (snd (get_player_binding w s)) = [?r]"
    by (simp add: get_player_binding_def Let_def split_beta Inr issued_since_def)
  with assms have "no_endfield_binding (http w ?r)" by simp
  then show ?thesis
    by (simp add: get_player_binding_def Let_def split_beta Inr binding_reply_no_role)
qed

lemma finish_authentication_role:
  assumes "finish_authentication w s0 = (ok, s1)"
    and "\<exists>req \<in> set (issued_since s0 s1). is_refresh req \<and> refresh_succeeds (http w req)"
    and "\<forall>req \<in> set (issued_since s0 s1). is_binding_lookup req \<longrightarrow> no_endfield_binding (http w req)"
  shows "ok \<and> game_role s1 = PyNone"
proof -
  let ?r = "refresh_request (snd (timestamp_now w s0)) (fst (timestamp_now w s0))"
  let ?t = "get_sign_token w s0"
  let ?s' = "(snd ?t)\<lparr>sign_token := fst ?t\<rparr>"
  let ?b = "get_player_binding w ?s'"
  have s': "session ?s' = session s0 @ [?r]" by simp
  have issued: "issued_since s0 s1 = ?r # (if truthy (fst ?t) then issued_since ?s' (snd ?b) else [])"
  proof (cases "truthy (fst ?t)")
    case False
    with assms(1) show ?thesis by (auto simp: finish_authentication_unfold Let_def issued_since_def)
  next
    case True
    with assms(1) have "session s1 = session (snd ?b)"
      by (auto simp: finish_authentication_unfold Let_def)
    with get_player_binding_session[of w ?s'] True show ?thesis
      by (auto simp: issued_since_def)
  qed
  have "\<forall>req \<in> set (issued_since ?s' (snd ?b)). is_binding_lookup req"
    using get_player_binding_session[of w ?s'] by (auto simp: issued_since_def)
  then have "\<forall>req \<in> set (issued_since ?s' (snd ?b)). \<not> is_refresh req"
    by (auto simp: is_binding_lookup_def is_refresh_def BASE_URL_def API_BASE_URL_def)
  with assms(2) issued have "refresh_succeeds (http w ?r)"
    by (auto split: if_splits)
  then have tok: "truthy (fst ?t)" by (rule get_sign_token_succeeds)
  with assms(1) have ok: "ok" and s1: "s1 = (snd ?b)\<lparr>game_role := fst ?b\<rparr>"
    by (auto simp: finish_authentication_unfold Let_def)
  from assms(3) issued tok
  have "\<forall>req \<in> set (issued_since ?s' (snd ?b)). is_binding_lookup req \<longrightarrow> no_endfield_binding (http w req)"
    by simp
  then have "fst ?b = PyNone" by (rule get_player_binding_no_role)
  with ok s1 show ?thesis by simp
qed

lemma authenticate_cases:
  assumes "authenticate w s = (ok, s1)"
  shows "(\<not> ok \<and> (\<forall>q \<in> set (issued_since s s1). \<not> is_refresh q)) \<or>
         (\<exists>s0 pre. finish_authentication w s0 = (ok, s1) \<and> session s0 = session s @ pre \<and>
             (\<forall>q \<in> set pre. \<not> is_refresh q \<and> \<not> is_binding_lookup q))"
proof (cases "truthy (cred s)")
  case True
  with assms have "finish_authentication w s = (ok, s1)" by (simp add: authenticate_unfold)
  then show ?thesis by (intro disjI2 exI[of _ s] exI[of _ "[]"]) simp
next
  case nocred: False
  have nr: "\<not> is_refresh (oauth_request s)" "\<not> is_refresh (cred_request c)"
    "\<not> is_binding_lookup (oauth_request s)" "\<not> is_binding_lookup (cred_request c)" for c
    by (simp_all add: is_refresh_def is_binding_lookup_def oauth_request_def cred_request_def
        OAUTH_URL_def BASE_URL_def API_BASE_URL_def)
  let ?g = "get_oauth_code w s"
  let ?c = "get_cred w (snd ?g) (fst ?g)"
  show ?thesis
  proof (cases "truthy (fst ?g) \<and> truthy (fst ?c)")
    case False
    with assms nocred have "\<not> ok"
      and "issued_since s s1 = [oauth_request s] \<or> issued_since s s1 = [oauth_request s, cred_request (fst ?g)]"
      by (auto simp: authenticate_unfold Let_def issued_since_def split: if_splits)
    with nr show ?thesis by auto
  next
    case True
    let ?s0 = "(snd ?c)\<lparr>cred := fst ?c\<rparr>"
    from assms nocred True have "finish_authentication w ?s0 = (ok, s1)"
      by (simp add: authenticate_unfold Let_def)
    moreover have "session ?s0 = session s @ [oauth_request s, cred_request (fst ?g)]" by simp
    ultimately show ?thesis
      using nr by (intro disjI2 exI[of _ ?s0] exI[of _ "[oauth_request s, cred_request (fst ?g)]"]) simp
  qed
qed

lemma attendance_header_names:
  assumes "\<not> truthy (game_role s)"
  shows "map fst (headers (check_request s t g)) = signed_header_names"
    and "map fst (headers (claim_request s t g)) = signed_header_names @ [''Content-Type'']"
    and "verb (check_request s t g) = ''GET''" and "verb (claim_request s t g) = ''POST''"
  using assms
  by (simp_all add: check_request_def claim_request_def signed_headers_def role_header_def
      signed_header_names_def)

text \<open>
  Claim C8. During authentication a token refresh was answered with a zero code and a
  token, and every binding lookup that was issued failed or listed no entry for the
  target game. Then \<^verbatim>\<open>authenticate\<close> returns \<^verbatim>\<open>True\<close> with the game role unset, and every
  attendance request that \<^verbatim>\<open>perform_checkin\<close> issues carries exactly the headers cred,
  platform, vname, timestamp, sk-language and sign (and Content-Type on the claim): the
  role header is left out.
\<close>

theorem unresolved_role_not_fatal:
  assumes "authenticate w s = (ok, s1)"
    and "\<exists>req \<in> set (issued_since s s1). is_refresh req \<and> refresh_succeeds (http w req)"
    and "\<forall>req \<in> set (issued_since s s1). is_binding_lookup req \<longrightarrow> no_endfield_binding (http w req)"
  shows "ok \<and> game_role s1 = PyNone \<and>
         (\<forall>req \<in> set (issued_since s (snd (perform_checkin w s))). is_attendance req \<longrightarrow>
            map fst (headers req) =
              signed_header_names @ (if verb req = ''POST'' then [''Content-Type''] else []))"
proof -
  from authenticate_cases[OF assms(1)] assms(2) obtain s0 pre
    where fin: "finish_authentication w s0 = (ok, s1)" and s0: "session s0 = session s @ pre"
      and pre: "\<forall>q \<in> set pre. \<not> is_refresh q \<and> \<not> is_binding_lookup q"
    by blast
  from finish_authentication_trace[OF fin] obtain new where new: "session s1 = session s0 @ new"
    by blast
  with s0 have "issued_since s s1 = pre @ issued_since s0 s1"
    by (simp add: issued_since_def)
  with assms(2,3) pre
  have "\<exists>req \<in> set (issued_since s0 s1). is_refresh req \<and> refresh_succeeds (http w req)"
    and "\<forall>req \<in> set (issued_since s0 s1). is_binding_lookup req \<longrightarrow> no_endfield_binding (http w req)"
    by auto
  with fin have ok: "ok" and role: "game_role s1 = PyNone"
    using finish_authentication_role by blast+
  from ok assms(1) have a: "authenticate w s = (True, s1)" by simp
  from authenticate_trace[OF a] obtain auth
    where auth: "session s1 = session s @ auth" "\<forall>req \<in> set auth. \<not> is_attendance req" by blast
  from perform_checkin_trace[OF a] obtain rest
    where rest: "session (snd (perform_checkin w s)) = session s1 @ rest"
      "\<forall>r \<in> set rest. \<exists>s' t g. game_role s' = game_role s1 \<and>
          (r = check_request s' t g \<or> r = claim_request s' t g)" by blast
  have "map fst (headers req) = signed_header_names @ (if verb req = ''POST'' then [''Content-Type''] else [])"
    if "req \<in> set rest" for req
  proof -
    from rest(2) that obtain s' t g where "game_role s' = PyNone"
      and "req = check_request s' t g \<or> req = claim_request s' t g"
      using role by metis
    then show ?thesis
      using attendance_header_names[of s' t g] by auto
  qed
  moreover from auth(1) rest(1) have "issued_since s (snd (perform_checkin w s)) = auth @ rest"
    by (simp add: issued_since_def)
  ultimately show ?thesis
    using ok role auth(2) by auto
qed

theorem unresolved_role_not_fatal_witness:
  "fst (authenticate (example_env (unbound_upstream (example_check False) (example_claim 0 ''OK'')))
          (EndfieldAdapter ''cred-value'' ''demo'')) \<and>
   game_role (snd (authenticate (example_env (unbound_upstream (example_check False) (example_claim 0 ''OK'')))
                     (EndfieldAdapter ''cred-value'' ''demo''))) = PyNone \<and>
   map (\<lambda>req. map fst (headers req))
     (filter is_attendance
        (issued_since (EndfieldAdapter ''cred-value'' ''demo'')
           (snd (perform_checkin (example_env (unbound_upstream (example_check False) (example_claim 0 ''OK'')))
                   (EndfieldAdapter ''cred-value'' ''demo''))))) =
     [signed_header_names, signed_header_names @ [''Content-Type'']]"
proof -
  let ?w = "example_env (unbound_upstream (example_check False) (example_claim 0 ''OK''))"
  let ?s = "EndfieldAdapter ''cred-value'' ''demo''"
  let ?s1 = "snd (authenticate ?w ?s)"
  have a: "authenticate ?w ?s = (fst (authenticate ?w ?s), ?s1)" by simp
  have r: "\<exists>req \<in> set (issued_since ?s ?s1). is_refresh req \<and> refresh_succeeds (http ?w req)"
    by code_simp
  have b: "\<forall>req \<in> set (issued_since ?s ?s1). is_binding_lookup req \<longrightarrow> no_endfield_binding (http ?w req)"
    by code_simp
  have h: "map (\<lambda>req. map fst (headers req))
             (filter is_attendance (issued_since ?s (snd (perform_checkin ?w ?s)))) =
           [signed_header_names, signed_header_names @ [''Content-Type'']]"
    by code_simp
  from unresolved_role_not_fatal[OF a r b] h show ?thesis by blast
qed

end
